theory Spec2Isabelle
  imports Main
begin

section \<open>Strings\<close>

text \<open>
  JavaScript strings are modelled as \<^typ>\<open>string\<close>, a list of 8-bit characters read as
  the code units U+0000 to U+00FF. The helper functions below follow the ECMAScript
  definitions of the string methods the scripts call, on that range.
\<close>

definition codeUnit :: "char \<Rightarrow> nat" where
  "codeUnit c = of_char c"

definition isUpper :: "char \<Rightarrow> bool" where
  "isUpper c = ((65 \<le> codeUnit c \<and> codeUnit c \<le> 90) \<or> (192 \<le> codeUnit c \<and> codeUnit c \<le> 222 \<and> codeUnit c \<noteq> 215))"

definition isLowerAscii :: "char \<Rightarrow> bool" where
  "isLowerAscii c = (97 \<le> codeUnit c \<and> codeUnit c \<le> 122)"

definition isDigit :: "char \<Rightarrow> bool" where
  "isDigit c = (48 \<le> codeUnit c \<and> codeUnit c \<le> 57)"

definition isAsciiAlpha :: "char \<Rightarrow> bool" where
  "isAsciiAlpha c = ((65 \<le> codeUnit c \<and> codeUnit c \<le> 90) \<or> isLowerAscii c)"

text \<open>The regular-expression class \<open>\w\<close>: ASCII letters, digits and the underscore.\<close>

definition isWordChar :: "char \<Rightarrow> bool" where
  "isWordChar c = (isAsciiAlpha c \<or> isDigit c \<or> c = CHR ''_'')"

text \<open>
  White space and line terminators, as \<open>String.prototype.trim\<close> and the class \<open>\s\<close>
  see them: TAB, LF, VT, FF, CR, SPACE and NBSP.
\<close>

definition isWhite :: "char \<Rightarrow> bool" where
  "isWhite c = (codeUnit c \<in> {9, 10, 11, 12, 13, 32, 160})"

definition lowerChar :: "char \<Rightarrow> char" where
  "lowerChar c = (if isUpper c then char_of (codeUnit c + 32) else c)"

definition toLowerCase :: "string \<Rightarrow> string" where
  "toLowerCase s = map lowerChar s"

definition trim :: "string \<Rightarrow> string" where
  "trim s = rev (dropWhile isWhite (rev (dropWhile isWhite s)))"

definition startsWith :: "string \<Rightarrow> string \<Rightarrow> bool" where
  "startsWith s p = (take (length p) s = p)"

text \<open>A prefix test under the \<open>i\<close> flag, for patterns of ASCII letters and punctuation.\<close>

definition startsWithCI :: "string \<Rightarrow> string \<Rightarrow> bool" where
  "startsWithCI s p = (toLowerCase (take (length p) s) = toLowerCase p)"

fun includesStr :: "string \<Rightarrow> string \<Rightarrow> bool" where
  "includesStr [] sub = (sub = [])"
| "includesStr (c # cs) sub = (startsWith (c # cs) sub \<or> includesStr cs sub)"

text \<open>
  \<open>[...new Set(xs)]\<close>: the distinct elements in order of first occurrence.
\<close>

fun dedupe :: "'a list \<Rightarrow> 'a list" where
  "dedupe [] = []"
| "dedupe (x # xs) = x # dedupe (filter (\<lambda>y. y \<noteq> x) xs)"

section \<open>The URL parser of the platform\<close>

text \<open>
  \<open>new URL(s).hostname\<close> belongs to the runtime, not to the repository. Every function
  that calls it takes the parser as a parameter \<open>U\<close>, where \<open>U s = None\<close> stands for the
  \<open>TypeError\<close> the constructor throws and \<open>U s = Some h\<close> for a successful parse with
  host name \<open>h\<close>. No theorem with a quantified input depends on a particular parser.

  For evaluation at concrete inputs, \<open>urlHostname\<close> follows the URL Standard for ASCII
  input whose host is a plain domain name: it strips surrounding C0 controls and spaces,
  removes TAB, LF and CR, reads the scheme, skips the slashes of a special scheme, cuts
  the authority at the first of \<open>/ \ ? #\<close>, drops the user information and the port,
  rejects an empty host and every forbidden domain code point, and lower-cases the host.
  IP literals, percent escapes and punycode labels are outside of what it models.
\<close>

definition isC0OrSpace :: "char \<Rightarrow> bool" where
  "isC0OrSpace c = (codeUnit c \<le> 32)"

definition isTabOrNewline :: "char \<Rightarrow> bool" where
  "isTabOrNewline c = (codeUnit c \<in> {9, 10, 13})"

definition isSchemeChar :: "char \<Rightarrow> bool" where
  "isSchemeChar c = (isAsciiAlpha c \<or> isDigit c \<or> c \<in> {CHR ''+'', CHR ''-'', CHR ''.''})"

definition isForbiddenHostChar :: "char \<Rightarrow> bool" where
  "isForbiddenHostChar c =
     (codeUnit c \<le> 32 \<or> codeUnit c \<ge> 127 \<or>
      c \<in> {CHR ''#'', CHR ''%'', CHR ''/'', CHR '':'', CHR ''<'', CHR ''>'', CHR ''?'',
           CHR ''@'', CHR ''['', CHR 0x5C, CHR '']'', CHR ''^'', CHR ''|'', CHR 0x22})"

definition parseScheme :: "string \<Rightarrow> (string \<times> string) option" where
  "parseScheme s =
     (case s of
        [] \<Rightarrow> None
      | c # cs \<Rightarrow>
          if \<not> isAsciiAlpha c then None
          else (case dropWhile isSchemeChar cs of
                  [] \<Rightarrow> None
                | d # ds \<Rightarrow> if d = CHR '':'' then Some (toLowerCase (c # takeWhile isSchemeChar cs), ds)
                           else None))"

definition afterLastAt :: "string \<Rightarrow> string" where
  "afterLastAt a = rev (takeWhile (\<lambda>c. c \<noteq> CHR ''@'') (rev a))"

definition specialHost :: "string \<Rightarrow> string option" where
  "specialHost authority =
     (let hostport = afterLastAt authority;
          host = takeWhile (\<lambda>c. c \<noteq> CHR '':'') hostport;
          port = drop (Suc (length host)) hostport
      in if host = [] then None
         else if \<not> list_all isDigit port then None
         else if list_ex isForbiddenHostChar host then None
         else Some (toLowerCase host))"

definition urlHostname :: "string \<Rightarrow> string option" where
  "urlHostname input =
     (let stripped = rev (dropWhile isC0OrSpace (rev (dropWhile isC0OrSpace input)));
          s = filter (\<lambda>c. \<not> isTabOrNewline c) stripped
      in case parseScheme s of
           None \<Rightarrow> None
         | Some (scheme, rest) \<Rightarrow>
             if scheme \<in> {''http'', ''https'', ''ws'', ''wss'', ''ftp''} then
               specialHost
                 (takeWhile (\<lambda>c. c \<notin> {CHR ''/'', CHR 0x5C, CHR ''?'', CHR ''#''})
                    (dropWhile (\<lambda>c. c = CHR ''/'' \<or> c = CHR 0x5C) rest))
             else if startsWith rest ''//'' then
               (let authority = takeWhile (\<lambda>c. c \<notin> {CHR ''/'', CHR ''?'', CHR ''#''}) (drop 2 rest);
                    hostport = afterLastAt authority;
                    host = takeWhile (\<lambda>c. c \<noteq> CHR '':'') hostport
                in if list_ex isForbiddenHostChar host then None else Some host)
             else Some [])"

section \<open>Domain normalisation\<close>

text \<open>
  \<open>normalizeDomain\<close> of the enhanced script; \<open>fw\<close> is \<open>CONFIG.forceWww\<close>. The TypeScript
  module \<open>websites.ts\<close> has the same function with the prefix always forced, which is
  \<open>normalizeDomain U True\<close>.
\<close>

text \<open>The argument of \<open>new URL\<close>: the input itself when it starts with \<open>http\<close>.\<close>

definition urlTarget :: "string \<Rightarrow> string" where
  "urlTarget url = (if startsWith url ''http'' then url else ''https://'' @ url)"

text \<open>\<open>url.replace(/^(https?:\/\/)?(www\.)?/i, '')\<close>\<close>

definition stripSchemeWww :: "string \<Rightarrow> string" where
  "stripSchemeWww url =
     (let s1 = (if startsWithCI url ''https://'' then drop 8 url
                else if startsWithCI url ''http://'' then drop 7 url
                else url)
      in if startsWithCI s1 ''www.'' then drop 4 s1 else s1)"

text \<open>\<open>.split('/')[0]\<close>\<close>

definition firstSegment :: "string \<Rightarrow> string" where
  "firstSegment s = takeWhile (\<lambda>c. c \<noteq> CHR ''/'') s"

definition normalizeDomain :: "(string \<Rightarrow> string option) \<Rightarrow> bool \<Rightarrow> string \<Rightarrow> string" where
  "normalizeDomain U fw url0 =
     (if url0 = [] then []
      else
        let url = trim url0 in
        case U (urlTarget url) of
          Some host \<Rightarrow> if fw \<and> \<not> startsWith host ''www.'' then ''www.'' @ host else host
        | None \<Rightarrow>
            let u = firstSegment (stripSchemeWww url)
            in if fw \<and> \<not> startsWithCI u ''www.'' then ''www.'' @ u else u)"

section \<open>Tier 1: candidate patterns\<close>

text \<open>
  The first replacement of \<open>cleanCompanyName\<close> removes every match of
  \<open>/\b(inc|llc|corp|ltd|limited|incorporated|corporation|company|co|l\.l\.c\.|l\.l\.c)\b\.?/gi\<close>.
  \<open>suffixAlternatives\<close> lists the alternatives in the order the matcher tries them.
\<close>

definition suffixAlternatives :: "string list" where
  "suffixAlternatives =
     [''inc'', ''llc'', ''corp'', ''ltd'', ''limited'', ''incorporated'', ''corporation'',
      ''company'', ''co'', ''l.l.c.'', ''l.l.c'']"

text \<open>\<open>\b\<close> between a character (or the string's edge, \<open>None\<close>) and the text that follows.\<close>

definition wordBoundary :: "char option \<Rightarrow> string \<Rightarrow> bool" where
  "wordBoundary prev s =
     ((case prev of None \<Rightarrow> False | Some c \<Rightarrow> isWordChar c)
        \<noteq> (case s of [] \<Rightarrow> False | c # _ \<Rightarrow> isWordChar c))"

text \<open>
  The length of the match of one alternative at the start of \<open>s\<close>: the alternative, a
  word boundary after it, then an optional full stop.
\<close>

definition matchAlternative :: "string \<Rightarrow> string \<Rightarrow> nat option" where
  "matchAlternative s alt =
     (let rest = drop (length alt) s in
      if startsWithCI s alt \<and> length alt \<le> length s \<and> wordBoundary (Some (last (take (length alt) s))) rest
      then Some (length alt + (if startsWith rest ''.'' then 1 else 0))
      else None)"

fun firstMatch :: "string \<Rightarrow> string list \<Rightarrow> nat option" where
  "firstMatch s [] = None"
| "firstMatch s (alt # alts) =
     (case matchAlternative s alt of Some n \<Rightarrow> Some n | None \<Rightarrow> firstMatch s alts)"

definition matchSuffix :: "char option \<Rightarrow> string \<Rightarrow> nat option" where
  "matchSuffix prev s = (if wordBoundary prev s then firstMatch s suffixAlternatives else None)"

text \<open>
  The global replacement scans from left to right; \<open>skip\<close> counts the characters of the
  current match that are still to be dropped.
\<close>

fun removeSuffixes :: "char option \<Rightarrow> nat \<Rightarrow> string \<Rightarrow> string" where
  "removeSuffixes prev skip [] = []"
| "removeSuffixes prev (Suc k) (c # cs) = removeSuffixes (Some c) k cs"
| "removeSuffixes prev 0 (c # cs) =
     (case matchSuffix prev (c # cs) of
        Some n \<Rightarrow> removeSuffixes (Some c) (n - 1) cs
      | None \<Rightarrow> c # removeSuffixes (Some c) 0 cs)"

text \<open>\<open>.replace(/^the\s+/i, '')\<close>\<close>

definition removeLeadingThe :: "string \<Rightarrow> string" where
  "removeLeadingThe s =
     (let rest = drop 3 s in
      if startsWithCI s ''the'' \<and> 3 \<le> length s \<and> rest \<noteq> [] \<and> isWhite (hd rest)
      then dropWhile isWhite rest else s)"

definition cleanCompanyName :: "string \<Rightarrow> string" where
  "cleanCompanyName name =
     trim (filter (\<lambda>c. isLowerAscii c \<or> isDigit c \<or> isWhite c \<or> c = CHR ''-'')
             (removeLeadingThe (removeSuffixes None 0 (toLowerCase name))))"

text \<open>
  \<open>.replace(/\s+/g, '-')\<close>: every maximal run of white space becomes one hyphen;
  \<open>inRun\<close> tells that the character before was white space of the current run.
\<close>

fun hyphenateFrom :: "bool \<Rightarrow> string \<Rightarrow> string" where
  "hyphenateFrom inRun [] = []"
| "hyphenateFrom inRun (c # cs) =
     (if isWhite c then (if inRun then hyphenateFrom True cs else CHR ''-'' # hyphenateFrom True cs)
      else c # hyphenateFrom False cs)"

definition hyphenate :: "string \<Rightarrow> string" where
  "hyphenate s = hyphenateFrom False s"

text \<open>The optional \<open>city\<close> parameter is \<open>None\<close> when the caller passes none.\<close>

definition generateDomainPatterns :: "bool \<Rightarrow> string \<Rightarrow> string option \<Rightarrow> string list" where
  "generateDomainPatterns fw companyName city =
     (let cleaned = cleanCompanyName companyName;
          noSpaces = filter (\<lambda>c. \<not> isWhite c) cleaned;
          hyphenated = hyphenate cleaned;
          noNumbers = filter (\<lambda>c. \<not> isDigit c) noSpaces;
          patterns = [noSpaces @ ''.com'', hyphenated @ ''.com'', noNumbers @ ''.com''];
          patterns' =
            (case city of
               None \<Rightarrow> patterns
             | Some cty \<Rightarrow>
                 if cty = [] then patterns
                 else
                   let cityClean = filter (\<lambda>c. isLowerAscii c \<or> isDigit c) (toLowerCase cty)
                   in patterns @ [cityClean @ noSpaces @ ''.com'', noSpaces @ cityClean @ ''.com''])
      in map (\<lambda>p. if fw \<and> \<not> startsWith p ''www.'' then ''www.'' @ p else p) (dedupe patterns'))"

section \<open>Configuration, records and the environment\<close>

text \<open>The fields of \<open>CONFIG\<close> that the resolution pipeline reads.\<close>

record config =
  forceWww :: bool
  googleCseKey :: string
  googleCx :: string
  openaiKey :: string
  enableDomainGuessing :: bool
  enableGoogleSearch :: bool
  enableOpenAI :: bool

text \<open>The object \<open>getCustomer\<close> returns; every field is a string, empty when the tag is absent.\<close>

record customer =
  cust_id :: string
  cust_code :: string
  cust_name :: string
  cust_city :: string
  cust_state :: string
  cust_phone :: string
  currentWebsite :: string

datatype confidence = High | Medium

datatype source = Domain_guess | Google_cse | Openai

record candidate =
  url :: string
  confidence :: confidence
  source :: source
  allResults :: "string list option"

text \<open>One entry of \<open>json.items\<close>; a field is \<open>None\<close> when the property is missing.\<close>

record search_item =
  link :: "string option"
  title :: "string option"
  snippet :: "string option"

datatype cse_response = CseTransportError | CseNotJson | CseJson "search_item list"

datatype openai_response = OaTransportError | OaMalformed | OaError | OaContent string

text \<open>The values \<open>saveCustomerWebsite\<close> places in the \<open>saveCustomer\<close> envelope.\<close>

record save_request =
  req_id :: string
  req_code :: string
  req_website :: string

text \<open>
  Every interaction with the outside is appended to a log: the calls of the three tiers,
  the network requests and the terminal prompts.
\<close>

datatype event =
    CallGuessDomain string string
  | CallSearchGoogleCSE string
  | CallSearchWithOpenAI string string string string
  | DnsResolve string
  | HttpHead string
  | CseRequest string
  | OpenAIRequest string string string string
  | SoapGetCustomer string
  | SoapSaveCustomer save_request
  | Question

text \<open>
  The environment answers each interaction; an answer may depend on the request and on how
  many interactions came before, so a service may change its mind over a run. For the two
  SOAP calls \<open>Inl msg\<close> is the \<open>Error\<close> that \<open>soapRequest\<close> rejects with and \<open>Inr\<close> the
  decoded record, respectively the response body.
\<close>

record world =
  dnsAnswer :: "nat \<Rightarrow> string \<Rightarrow> bool"
  httpAnswer :: "nat \<Rightarrow> string \<Rightarrow> bool"
  cseAnswer :: "nat \<Rightarrow> string \<Rightarrow> cse_response"
  openaiAnswer :: "nat \<Rightarrow> string \<Rightarrow> string \<Rightarrow> string \<Rightarrow> string \<Rightarrow> openai_response"
  getCustomerAnswer :: "nat \<Rightarrow> string \<Rightarrow> string + customer"
  saveCustomerAnswer :: "nat \<Rightarrow> save_request \<Rightarrow> string + string"
  userAnswer :: "nat \<Rightarrow> string"

type_synonym log = "event list"

definition question :: "world \<Rightarrow> log \<Rightarrow> string \<times> log" where
  "question W lg = (userAnswer W (length lg), lg @ [Question])"

section \<open>The directory protocol client\<close>

definition getCustomer :: "world \<Rightarrow> string \<Rightarrow> log \<Rightarrow> (string + customer) \<times> log" where
  "getCustomer W customerCode lg =
     (getCustomerAnswer W (length lg) customerCode, lg @ [SoapGetCustomer customerCode])"

text \<open>\<open>s && s.trim() !== ''\<close>\<close>

definition nonBlank :: "string \<Rightarrow> bool" where
  "nonBlank s = (s \<noteq> [] \<and> trim s \<noteq> [])"

text \<open>The enhanced script's \<open>saveCustomerWebsite\<close>, lines 171 to 175.\<close>

definition saveRequest :: "string \<Rightarrow> string \<Rightarrow> string \<Rightarrow> save_request" where
  "saveRequest customerId customerCode websiteUrl =
     \<lparr> req_id = (if nonBlank customerId then customerId else ''0''),
       req_code = (if nonBlank customerCode then customerCode else []),
       req_website = toLowerCase websiteUrl \<rparr>"

text \<open>\<open>response && response.toLowerCase().includes('savecustomerresult')\<close>\<close>

definition saveSucceeded :: "string \<Rightarrow> bool" where
  "saveSucceeded response = (response \<noteq> [] \<and> includesStr (toLowerCase response) ''savecustomerresult'')"

definition sendSave :: "world \<Rightarrow> save_request \<Rightarrow> log \<Rightarrow> (string + bool) \<times> log" where
  "sendSave W req lg =
     (case saveCustomerAnswer W (length lg) req of
        Inl msg \<Rightarrow> (Inl msg, lg @ [SoapSaveCustomer req])
      | Inr response \<Rightarrow> (Inr (saveSucceeded response), lg @ [SoapSaveCustomer req]))"

definition saveCustomerWebsite :: "world \<Rightarrow> string \<Rightarrow> string \<Rightarrow> string \<Rightarrow> log \<Rightarrow> (string + bool) \<times> log" where
  "saveCustomerWebsite W customerId customerCode websiteUrl lg =
     sendSave W (saveRequest customerId customerCode websiteUrl) lg"

text \<open>
  \<open>saveCustomerWebsite\<close> of \<open>websites.ts\<close> sends its three arguments as they are; the
  substitutes for a blank identifier and a blank code are computed by its caller.
\<close>

definition ts_saveCustomerWebsite :: "world \<Rightarrow> string \<Rightarrow> string \<Rightarrow> string \<Rightarrow> log \<Rightarrow> (string + bool) \<times> log" where
  "ts_saveCustomerWebsite W customerId customerCode websiteUrl lg =
     sendSave W \<lparr> req_id = customerId, req_code = customerCode, req_website = websiteUrl \<rparr> lg"

section \<open>Tier 1: domain guessing\<close>

text \<open>\<open>domain.replace(/^www\./i, '')\<close>, then the DNS lookup under its timeout.\<close>

definition checkDomainExists :: "world \<Rightarrow> string \<Rightarrow> log \<Rightarrow> bool \<times> log" where
  "checkDomainExists W domain lg =
     (let bareHost = (if startsWithCI domain ''www.'' then drop 4 domain else domain)
      in (dnsAnswer W (length lg) bareHost, lg @ [DnsResolve bareHost]))"

definition checkWebsiteResponds :: "world \<Rightarrow> string \<Rightarrow> log \<Rightarrow> bool \<times> log" where
  "checkWebsiteResponds W domain lg =
     (let target = (if startsWith domain ''http'' then domain else ''https://'' @ domain)
      in (httpAnswer W (length lg) target, lg @ [HttpHead target]))"

text \<open>The \<open>for\<close> loop of \<open>guessDomain\<close> over the candidate patterns.\<close>

fun tryPatterns :: "world \<Rightarrow> string list \<Rightarrow> log \<Rightarrow> candidate option \<times> log" where
  "tryPatterns W [] lg = (None, lg)"
| "tryPatterns W (pattern # patterns) lg =
     (case checkDomainExists W pattern lg of
        (exists, lg1) \<Rightarrow>
          if \<not> exists then tryPatterns W patterns lg1
          else (case checkWebsiteResponds W pattern lg1 of
                  (responds, lg2) \<Rightarrow>
                    if responds
                    then (Some \<lparr> url = pattern, confidence = High, source = Domain_guess,
                                 allResults = None \<rparr>, lg2)
                    else tryPatterns W patterns lg2))"

definition guessDomain :: "config \<Rightarrow> world \<Rightarrow> string \<Rightarrow> string \<Rightarrow> log \<Rightarrow> candidate option \<times> log" where
  "guessDomain cfg W companyName cty lg =
     (let lg0 = lg @ [CallGuessDomain companyName cty] in
      if \<not> enableDomainGuessing cfg then (None, lg0)
      else tryPatterns W (generateDomainPatterns (forceWww cfg) companyName (Some cty)) lg0)"

section \<open>Tier 2: scored search results\<close>

record scored =
  s_url :: string
  s_title :: string
  s_score :: int

definition badDomains :: "string list" where
  "badDomains = [''facebook.com'', ''linkedin.com'', ''twitter.com'', ''yelp.com'',
                 ''yellowpages.com'', ''bbb.org'']"

definition orEmpty :: "string option \<Rightarrow> string" where
  "orEmpty s = (case s of None \<Rightarrow> [] | Some t \<Rightarrow> t)"

text \<open>The score of a link with the lower-cased title and snippet.\<close>

definition scoreOf :: "string \<Rightarrow> string \<Rightarrow> string \<Rightarrow> int" where
  "scoreOf u ttl snip =
     (if includesStr u ''.com'' then 10 else 0)
     + (if includesStr ttl ''official'' \<or> includesStr ttl ''home'' then 5 else 0)
     + (if includesStr snip ''official website'' then 5 else 0)
     - (if list_ex (\<lambda>bad. includesStr u bad) badDomains then 20 else 0)"

text \<open>
  The callback of \<open>json.items.map\<close>. An item without a link makes \<open>url.includes\<close> throw,
  which is \<open>None\<close> here.
\<close>

definition scoreItem :: "search_item \<Rightarrow> scored option" where
  "scoreItem item =
     (case link item of
        None \<Rightarrow> None
      | Some u \<Rightarrow>
          let ttl = toLowerCase (orEmpty (title item));
              snip = toLowerCase (orEmpty (snippet item))
          in Some \<lparr> s_url = u, s_title = ttl, s_score = scoreOf u ttl snip \<rparr>)"

text \<open>
  \<open>scored.sort((a, b) => b.score - a.score)\<close>: \<open>Array.prototype.sort\<close> is stable, so the
  result is the stable sort by descending score.
\<close>

definition sortByScore :: "scored list \<Rightarrow> scored list" where
  "sortByScore xs = sort_key (\<lambda>s. - s_score s) xs"

text \<open>The body of the \<open>end\<close> handler once the response has parsed as JSON.\<close>

definition rankResults :: "(string \<Rightarrow> string option) \<Rightarrow> bool \<Rightarrow> search_item list \<Rightarrow> candidate option" where
  "rankResults U fw items =
     (if items = [] then None
      else case those (map scoreItem items) of
             None \<Rightarrow> None
           | Some scoredItems \<Rightarrow>
               (case sortByScore scoredItems of
                  [] \<Rightarrow> None
                | best # rest \<Rightarrow>
                    if s_score best < 0 then None
                    else (case U (s_url best) of
                            None \<Rightarrow> None
                          | Some hostname \<Rightarrow>
                              Some \<lparr> url = normalizeDomain U fw hostname,
                                     confidence = (if s_score best \<ge> 10 then High else Medium),
                                     source = Google_cse,
                                     allResults = Some (map s_url (best # rest)) \<rparr>)))"

definition searchGoogleCSE :: "(string \<Rightarrow> string option) \<Rightarrow> config \<Rightarrow> world \<Rightarrow> string \<Rightarrow> log \<Rightarrow> candidate option \<times> log" where
  "searchGoogleCSE U cfg W query lg =
     (let lg0 = lg @ [CallSearchGoogleCSE query] in
      if \<not> enableGoogleSearch cfg \<or> googleCseKey cfg = [] \<or> googleCx cfg = [] then (None, lg0)
      else
        (case cseAnswer W (length lg0) query of
           CseTransportError \<Rightarrow> (None, lg0 @ [CseRequest query])
         | CseNotJson \<Rightarrow> (None, lg0 @ [CseRequest query])
         | CseJson items \<Rightarrow> (rankResults U (forceWww cfg) items, lg0 @ [CseRequest query])))"

section \<open>Tier 3: the OpenAI fallback\<close>

definition searchWithOpenAI :: "(string \<Rightarrow> string option) \<Rightarrow> config \<Rightarrow> world \<Rightarrow> string \<Rightarrow> string \<Rightarrow> string \<Rightarrow> string \<Rightarrow> log \<Rightarrow> candidate option \<times> log" where
  "searchWithOpenAI U cfg W companyName cty st ph lg =
     (let lg0 = lg @ [CallSearchWithOpenAI companyName cty st ph] in
      if \<not> enableOpenAI cfg \<or> openaiKey cfg = [] then (None, lg0)
      else
        (let lg1 = lg0 @ [OpenAIRequest companyName cty st ph] in
         case openaiAnswer W (length lg0) companyName cty st ph of
           OaTransportError \<Rightarrow> (None, lg1)
         | OaMalformed \<Rightarrow> (None, lg1)
         | OaError \<Rightarrow> (None, lg1)
         | OaContent raw \<Rightarrow>
             let content = trim raw in
             if content = ''NOT_FOUND'' \<or> includesStr content ''NOT_FOUND'' then (None, lg1)
             else (Some \<lparr> url = normalizeDomain U (forceWww cfg) content, confidence = Medium,
                           source = Openai, allResults = None \<rparr>, lg1)))"

section \<open>The resolution orchestrator\<close>

definition searchQuery :: "customer \<Rightarrow> string" where
  "searchQuery c = cust_name c @ '' '' @ cust_city c @ '' '' @ cust_state c @ '' official website''"

definition findWebsite :: "(string \<Rightarrow> string option) \<Rightarrow> config \<Rightarrow> world \<Rightarrow> customer \<Rightarrow> log \<Rightarrow> candidate option \<times> log" where
  "findWebsite U cfg W c lg =
     (case (if enableDomainGuessing cfg then guessDomain cfg W (cust_name c) (cust_city c) lg
            else (None, lg)) of
        (Some guessed, lg1) \<Rightarrow> (Some guessed, lg1)
      | (None, lg1) \<Rightarrow>
          (case (if enableGoogleSearch cfg then searchGoogleCSE U cfg W (searchQuery c) lg1
                 else (None, lg1)) of
             (Some googleResult, lg2) \<Rightarrow> (Some googleResult, lg2)
           | (None, lg2) \<Rightarrow>
               (case (if enableOpenAI cfg
                      then searchWithOpenAI U cfg W (cust_name c) (cust_city c) (cust_state c) (cust_phone c) lg2
                      else (None, lg2)) of
                  (Some openaiResult, lg3) \<Rightarrow> (Some openaiResult, lg3)
                | (None, lg3) \<Rightarrow> (None, lg3))))"

section \<open>Processing one customer\<close>

text \<open>The object \<open>processCustomer\<close> returns; an absent property is \<open>False\<close> or \<open>None\<close>.\<close>

record outcome =
  res_success :: bool
  res_skipped :: bool
  res_updated :: bool
  res_url :: "string option"
  res_error :: "string option"

record options =
  nonInteractive :: bool
  website :: "string option"
  force :: bool
  autoConfirm :: bool

definition skippedOutcome :: outcome where
  "skippedOutcome = \<lparr> res_success = True, res_skipped = True, res_updated = False,
                       res_url = None, res_error = None \<rparr>"

text \<open>The result built in the \<open>catch\<close> block.\<close>

definition errorOutcome :: "string \<Rightarrow> outcome" where
  "errorOutcome msg = \<lparr> res_success = False, res_skipped = False, res_updated = False,
                         res_url = None, res_error = Some msg \<rparr>"

text \<open>Lines 611 to 633: the chosen address is normalised, confirmed and saved.\<close>

definition saveChosen :: "(string \<Rightarrow> string option) \<Rightarrow> config \<Rightarrow> world \<Rightarrow> customer \<Rightarrow> options \<Rightarrow> string \<Rightarrow> log \<Rightarrow> outcome \<times> log" where
  "saveChosen U cfg W c opts websiteUrl lg =
     (if \<not> nonBlank websiteUrl then (skippedOutcome, lg)
      else
        let normalizedUrl = normalizeDomain U (forceWww cfg) websiteUrl;
            (confirmed, lg1) =
              (if \<not> nonInteractive opts \<and> \<not> autoConfirm opts
               then (case question W lg of (answer, lg') \<Rightarrow> (toLowerCase (trim answer) = ''y'', lg'))
               else (True, lg))
        in if \<not> confirmed then (skippedOutcome, lg1)
           else (case saveCustomerWebsite W (cust_id c) (cust_code c) normalizedUrl lg1 of
                   (Inl msg, lg2) \<Rightarrow> (errorOutcome msg, lg2)
                 | (Inr saved, lg2) \<Rightarrow>
                     if saved
                     then (\<lparr> res_success = True, res_skipped = False, res_updated = True,
                              res_url = Some normalizedUrl, res_error = None \<rparr>, lg2)
                     else (\<lparr> res_success = False, res_skipped = False, res_updated = False,
                              res_url = None, res_error = None \<rparr>, lg2)))"

text \<open>Lines 568 to 609: a pinned address, or the pipeline and the decision on its result.\<close>

definition resolveAndSave :: "(string \<Rightarrow> string option) \<Rightarrow> config \<Rightarrow> world \<Rightarrow> customer \<Rightarrow> options \<Rightarrow> log \<Rightarrow> outcome \<times> log" where
  "resolveAndSave U cfg W c opts lg =
     (if orEmpty (website opts) \<noteq> [] then saveChosen U cfg W c opts (orEmpty (website opts)) lg
      else
        (case findWebsite U cfg W c lg of
           (Some result, lg1) \<Rightarrow>
             if nonInteractive opts then
               (if confidence result = High \<or> force opts
                then saveChosen U cfg W c opts (url result) lg1
                else (skippedOutcome, lg1))
             else
               (case question W lg1 of
                  (answer, lg2) \<Rightarrow>
                    let choice = toLowerCase (trim answer) in
                    if choice = ''y'' then saveChosen U cfg W c opts (url result) lg2
                    else if choice = ''e'' then
                      (case question W lg2 of
                         (manual, lg3) \<Rightarrow>
                           if nonBlank manual then saveChosen U cfg W c opts manual lg3
                           else (skippedOutcome, lg3))
                    else (skippedOutcome, lg2))
         | (None, lg1) \<Rightarrow>
             if nonInteractive opts then (skippedOutcome, lg1)
             else
               (case question W lg1 of
                  (manual, lg2) \<Rightarrow>
                    if \<not> nonBlank manual then (skippedOutcome, lg2)
                    else saveChosen U cfg W c opts manual lg2)))"

definition processCustomer :: "(string \<Rightarrow> string option) \<Rightarrow> config \<Rightarrow> world \<Rightarrow> string \<Rightarrow> options \<Rightarrow> log \<Rightarrow> outcome \<times> log" where
  "processCustomer U cfg W customerCode opts lg =
     (case getCustomer W customerCode lg of
        (Inl msg, lg1) \<Rightarrow> (errorOutcome msg, lg1)
      | (Inr c, lg1) \<Rightarrow>
          if nonBlank (currentWebsite c) \<and> \<not> force opts then
            (if nonInteractive opts then (skippedOutcome, lg1)
             else
               (case question W lg1 of
                  (answer, lg2) \<Rightarrow>
                    let resp = toLowerCase (trim answer) in
                    if resp = ''s'' then (skippedOutcome, lg2)
                    else if resp = ''e'' then
                      (case question W lg2 of
                         (manual, lg3) \<Rightarrow>
                           if \<not> nonBlank manual then (skippedOutcome, lg3)
                           else
                             (case saveCustomerWebsite W (cust_id c) (cust_code c)
                                     (normalizeDomain U (forceWww cfg) manual) lg3 of
                                (Inl msg, lg4) \<Rightarrow> (errorOutcome msg, lg4)
                              | (Inr saved, lg4) \<Rightarrow>
                                  (\<lparr> res_success = saved, res_skipped = False, res_updated = False,
                                      res_url = None, res_error = None \<rparr>, lg4)))
                    else resolveAndSave U cfg W c opts lg2))
          else resolveAndSave U cfg W c opts lg1)"

section \<open>Processing a list of customers\<close>

text \<open>A row of the input: a bare code, or an object with a code and a website.\<close>

datatype row = BareCode string | CodeWebsite string string

record tally =
  total :: nat
  updated :: nat
  skipped :: nat
  failed :: nat

record detail =
  d_code :: string
  d_status :: string
  d_url :: "string option"
  d_error :: "string option"

definition rowCode :: "row \<Rightarrow> string" where
  "rowCode item = (case item of BareCode cd \<Rightarrow> cd | CodeWebsite cd w \<Rightarrow> cd)"

definition rowWebsite :: "row \<Rightarrow> string option" where
  "rowWebsite item = (case item of BareCode cd \<Rightarrow> None | CodeWebsite cd w \<Rightarrow> Some w)"

text \<open>Lines 660 to 670: the counters and the detail list after one record.\<close>

definition recordOutcome :: "string \<Rightarrow> outcome \<Rightarrow> tally \<times> detail list \<Rightarrow> tally \<times> detail list" where
  "recordOutcome cd res acc =
     (case acc of
        (results, detailed) \<Rightarrow>
          if res_skipped res then (results \<lparr> skipped := skipped results + 1 \<rparr>, detailed)
          else if res_success res then
            (results \<lparr> updated := updated results + 1 \<rparr>,
             if orEmpty (res_url res) \<noteq> []
             then detailed @ [\<lparr> d_code = cd, d_status = ''updated'', d_url = res_url res,
                                d_error = None \<rparr>]
             else detailed)
          else
            (results \<lparr> failed := failed results + 1 \<rparr>,
             detailed @ [\<lparr> d_code = cd, d_status = ''failed'', d_url = None,
                            d_error = Some (if orEmpty (res_error res) \<noteq> [] then orEmpty (res_error res)
                                            else ''unknown'') \<rparr>]))"

fun processRows :: "(string \<Rightarrow> string option) \<Rightarrow> config \<Rightarrow> world \<Rightarrow> options \<Rightarrow> row list \<Rightarrow> tally \<times> detail list \<Rightarrow> log \<Rightarrow> (tally \<times> detail list) \<times> log" where
  "processRows U cfg W opts [] acc lg = (acc, lg)"
| "processRows U cfg W opts (item # items) acc lg =
     (case processCustomer U cfg W (rowCode item) (opts \<lparr> website := rowWebsite item \<rparr>) lg of
        (res, lg1) \<Rightarrow> processRows U cfg W opts items (recordOutcome (rowCode item) res acc) lg1)"

definition processCustomerList :: "(string \<Rightarrow> string option) \<Rightarrow> config \<Rightarrow> world \<Rightarrow> row list \<Rightarrow> options \<Rightarrow> log \<Rightarrow> (tally \<times> detail list) \<times> log" where
  "processCustomerList U cfg W customerCodes opts lg =
     processRows U cfg W opts customerCodes
       (\<lparr> total = length customerCodes, updated = 0, skipped = 0, failed = 0 \<rparr>, []) lg"

text \<open>The number of records the three outcome counters have counted.\<close>

definition done_count :: "tally \<Rightarrow> nat" where
  "done_count r = updated r + skipped r + failed r"

section \<open>The results file\<close>

definition csvLine :: "detail \<Rightarrow> string" where
  "csvLine item = d_code item @ '','' @ d_status item @ '','' @ orEmpty (d_url item) @ '',''
                   @ orEmpty (d_error item)"

text \<open>\<open>lines.join('\n')\<close>\<close>

fun joinLines :: "string list \<Rightarrow> string" where
  "joinLines [] = []"
| "joinLines [l] = l"
| "joinLines (l # ls) = l @ [CHR 0x0A] @ joinLines ls"

text \<open>The text \<open>writeResultsCsv\<close> writes to the output file.\<close>

definition writeResultsCsv :: "detail list \<Rightarrow> string" where
  "writeResultsCsv detailed = joinLines (''code,status,url,error'' # map csvLine detailed)"

section \<open>The TypeScript module\<close>

text \<open>
  \<open>processCustomer\<close> and \<open>processCustomerList\<close> of \<open>websites.ts\<close>. \<open>rl\<close> tells whether the
  caller passed a readline interface; without one an interactive prompt throws.
\<close>

definition readlineRequired :: string where
  "readlineRequired = ''readline required for interactive prompts''"

definition ts_persist :: "world \<Rightarrow> customer \<Rightarrow> string \<Rightarrow> string \<Rightarrow> log \<Rightarrow> outcome \<times> log" where
  "ts_persist W c customerCode normalizedUrl lg =
     (let outId = (if nonBlank (cust_id c) then cust_id c else ''0'');
          outCode = (if nonBlank (cust_code c) then cust_code c else customerCode)
      in case ts_saveCustomerWebsite W outId outCode normalizedUrl lg of
           (Inl msg, lg1) \<Rightarrow> (errorOutcome msg, lg1)
         | (Inr saved, lg1) \<Rightarrow>
             (\<lparr> res_success = saved, res_skipped = False, res_updated = False,
                 res_url = None, res_error = None \<rparr>, lg1))"

text \<open>Lines 154 to 178 of \<open>websites.ts\<close>.\<close>

definition ts_enterAndSave :: "(string \<Rightarrow> string option) \<Rightarrow> world \<Rightarrow> bool \<Rightarrow> customer \<Rightarrow> string \<Rightarrow> options \<Rightarrow> log \<Rightarrow> outcome \<times> log" where
  "ts_enterAndSave U W rl c customerCode opts lg =
     (if orEmpty (website opts) = [] \<and> nonInteractive opts then (skippedOutcome, lg)
      else if orEmpty (website opts) = [] \<and> \<not> rl then (errorOutcome readlineRequired, lg)
      else
        let (websiteUrl, lg1) =
              (if orEmpty (website opts) = [] then question W lg else (orEmpty (website opts), lg))
        in if \<not> nonBlank websiteUrl then (skippedOutcome, lg1)
           else
             let normalizedUrl = normalizeDomain U True websiteUrl in
             if nonInteractive opts then ts_persist W c customerCode normalizedUrl lg1
             else if \<not> rl then (errorOutcome readlineRequired, lg1)
             else (case question W lg1 of
                     (confirm, lg2) \<Rightarrow>
                       if toLowerCase confirm \<noteq> ''y'' then (skippedOutcome, lg2)
                       else ts_persist W c customerCode normalizedUrl lg2))"

definition ts_processCustomer :: "(string \<Rightarrow> string option) \<Rightarrow> world \<Rightarrow> bool \<Rightarrow> string \<Rightarrow> options \<Rightarrow> log \<Rightarrow> outcome \<times> log" where
  "ts_processCustomer U W rl customerCode opts lg =
     (case getCustomer W customerCode lg of
        (Inl msg, lg1) \<Rightarrow> (errorOutcome msg, lg1)
      | (Inr c, lg1) \<Rightarrow>
          if nonBlank (currentWebsite c) \<and> \<not> force opts then
            (if nonInteractive opts then (skippedOutcome, lg1)
             else if \<not> rl then (errorOutcome readlineRequired, lg1)
             else (case question W lg1 of
                     (overwrite, lg2) \<Rightarrow>
                       if toLowerCase overwrite \<noteq> ''y'' then (skippedOutcome, lg2)
                       else ts_enterAndSave U W rl c customerCode opts lg2))
          else ts_enterAndSave U W rl c customerCode opts lg1)"

text \<open>Line 197 of \<open>websites.ts\<close>: one counter per processed record.\<close>

definition ts_count :: "outcome \<Rightarrow> tally \<Rightarrow> tally" where
  "ts_count res results =
     (if res_skipped res then results \<lparr> skipped := skipped results + 1 \<rparr>
      else if res_success res then results \<lparr> updated := updated results + 1 \<rparr>
      else results \<lparr> failed := failed results + 1 \<rparr>)"

text \<open>
  The loop of the TypeScript \<open>processCustomerList\<close>. In interactive mode it asks after
  every record but the last whether to continue, and any answer but \<open>y\<close> leaves the loop;
  without a readline interface that prompt throws out of the function (\<open>Inl\<close>).
\<close>

fun ts_processRows :: "(string \<Rightarrow> string option) \<Rightarrow> world \<Rightarrow> bool \<Rightarrow> options \<Rightarrow> row list \<Rightarrow> tally \<Rightarrow> log \<Rightarrow> (string + tally) \<times> log" where
  "ts_processRows U W rl opts [] results lg = (Inr results, lg)"
| "ts_processRows U W rl opts (item # items) results lg =
     (case ts_processCustomer U W rl (rowCode item) (opts \<lparr> website := rowWebsite item \<rparr>) lg of
        (res, lg1) \<Rightarrow>
          let results1 = ts_count res results in
          if \<not> nonInteractive opts \<and> items \<noteq> [] then
            (if \<not> rl then (Inl readlineRequired, lg1)
             else (case question W lg1 of
                     (cont, lg2) \<Rightarrow>
                       if toLowerCase cont \<noteq> ''y'' then (Inr results1, lg2)
                       else ts_processRows U W rl opts items results1 lg2))
          else ts_processRows U W rl opts items results1 lg1)"

definition ts_processCustomerList :: "(string \<Rightarrow> string option) \<Rightarrow> world \<Rightarrow> bool \<Rightarrow> row list \<Rightarrow> options \<Rightarrow> log \<Rightarrow> (string + tally) \<times> log" where
  "ts_processCustomerList U W rl customerCodes opts lg =
     ts_processRows U W rl opts customerCodes
       \<lparr> total = length customerCodes, updated = 0, skipped = 0, failed = 0 \<rparr> lg"

section \<open>The tier order as the specification words it\<close>

text \<open>
  The specification describes the orchestrator as a walk over the tiers in a fixed order:
  a disabled tier is passed over without being invoked, an enabled tier is invoked, the
  first result that is not null ends the walk, and null is returned when the walk
  reaches the end. \<open>firstSuccess\<close> is that description; \<open>findWebsite\<close> above is the code.
\<close>

datatype tier = TierGuess | TierSearch | TierAI

definition tierEnabled :: "config \<Rightarrow> tier \<Rightarrow> bool" where
  "tierEnabled cfg t =
     (case t of TierGuess \<Rightarrow> enableDomainGuessing cfg
              | TierSearch \<Rightarrow> enableGoogleSearch cfg
              | TierAI \<Rightarrow> enableOpenAI cfg)"

definition runTier :: "(string \<Rightarrow> string option) \<Rightarrow> config \<Rightarrow> world \<Rightarrow> customer \<Rightarrow> tier \<Rightarrow> log \<Rightarrow> candidate option \<times> log" where
  "runTier U cfg W c t lg =
     (case t of
        TierGuess \<Rightarrow> guessDomain cfg W (cust_name c) (cust_city c) lg
      | TierSearch \<Rightarrow> searchGoogleCSE U cfg W (searchQuery c) lg
      | TierAI \<Rightarrow> searchWithOpenAI U cfg W (cust_name c) (cust_city c) (cust_state c) (cust_phone c) lg)"

fun firstSuccess :: "(string \<Rightarrow> string option) \<Rightarrow> config \<Rightarrow> world \<Rightarrow> customer \<Rightarrow> tier list \<Rightarrow> log \<Rightarrow> candidate option \<times> log" where
  "firstSuccess U cfg W c [] lg = (None, lg)"
| "firstSuccess U cfg W c (t # ts) lg =
     (if tierEnabled cfg t
      then (case runTier U cfg W c t lg of
              (Some result, lg1) \<Rightarrow> (Some result, lg1)
            | (None, lg1) \<Rightarrow> firstSuccess U cfg W c ts lg1)
      else firstSuccess U cfg W c ts lg)"

text \<open>The tiers whose invocation a log records, in the order of the calls.\<close>

fun tierOfEvent :: "event \<Rightarrow> tier list" where
  "tierOfEvent (CallGuessDomain n cty) = [TierGuess]"
| "tierOfEvent (CallSearchGoogleCSE q) = [TierSearch]"
| "tierOfEvent (CallSearchWithOpenAI n cty st ph) = [TierAI]"
| "tierOfEvent e = []"

definition calledTiers :: "log \<Rightarrow> tier list" where
  "calledTiers lg = concat (map tierOfEvent lg)"

definition enabledTiers :: "config \<Rightarrow> tier list" where
  "enabledTiers cfg = filter (tierEnabled cfg) [TierGuess, TierSearch, TierAI]"

text \<open>The save requests a log records.\<close>

fun saveOfEvent :: "event \<Rightarrow> save_request list" where
  "saveOfEvent (SoapSaveCustomer req) = [req]"
| "saveOfEvent e = []"

definition savesSent :: "log \<Rightarrow> save_request list" where
  "savesSent lg = concat (map saveOfEvent lg)"

text \<open>The customer codes a log records as fetched from the directory, in order.\<close>

fun fetchOfEvent :: "event \<Rightarrow> string list" where
  "fetchOfEvent (SoapGetCustomer cd) = [cd]"
| "fetchOfEvent e = []"

definition fetchedCodes :: "log \<Rightarrow> string list" where
  "fetchedCodes lg = concat (map fetchOfEvent lg)"

section \<open>Inputs of the normaliser\<close>










section \<open>Environments and inputs for evaluation\<close>

text \<open>
  An environment in which nothing is found: no name resolves, no site responds, the search
  and the completion request fail in transport, the directory has an empty record for
  every code and acknowledges every save, and the user answers \<open>n\<close>.
\<close>

definition emptyCustomer :: customer where
  "emptyCustomer = \<lparr> cust_id = [], cust_code = [], cust_name = [], cust_city = [],
                      cust_state = [], cust_phone = [], currentWebsite = [] \<rparr>"

definition quietWorld :: world where
  "quietWorld =
     \<lparr> dnsAnswer = (\<lambda>n host. False),
       httpAnswer = (\<lambda>n target. False),
       cseAnswer = (\<lambda>n query. CseTransportError),
       openaiAnswer = (\<lambda>n nm cty st ph. OaTransportError),
       getCustomerAnswer = (\<lambda>n cd. Inr emptyCustomer),
       saveCustomerAnswer = (\<lambda>n req. Inr ''<saveCustomerResult>true</saveCustomerResult>''),
       userAnswer = (\<lambda>n. ''n'') \<rparr>"

definition defaultConfig :: config where
  "defaultConfig =
     \<lparr> forceWww = True, googleCseKey = [], googleCx = [], openaiKey = [],
       enableDomainGuessing = True, enableGoogleSearch = True, enableOpenAI = False \<rparr>"

definition unattended :: options where
  "unattended = \<lparr> nonInteractive = True, website = None, force = False, autoConfirm = False \<rparr>"

text \<open>Scenario A of the specification: \<open>WE01\<close> has no website and the first guess is live.\<close>

definition webowers :: customer where
  "webowers = \<lparr> cust_id = ''17'', cust_code = ''WE01'', cust_name = ''Webowers'', cust_city = [],
                 cust_state = [], cust_phone = [], currentWebsite = [] \<rparr>"

definition liveWorld :: world where
  "liveWorld = quietWorld \<lparr> dnsAnswer := (\<lambda>n host. True), httpAnswer := (\<lambda>n target. True),
                             getCustomerAnswer := (\<lambda>n cd. Inr webowers) \<rparr>"

text \<open>Scenario B: \<open>ABC123\<close> already has a website in the directory.\<close>

definition abc123 :: customer where
  "abc123 = \<lparr> cust_id = ''42'', cust_code = ''ABC123'', cust_name = ''ABC Supply'',
               cust_city = ''Dover'', cust_state = ''DE'', cust_phone = [],
               currentWebsite = ''www.abcsupply.com'' \<rparr>"

definition scenarioB :: world where
  "scenarioB = quietWorld \<lparr> getCustomerAnswer := (\<lambda>n cd. Inr abc123) \<rparr>"

text \<open>
  Two environments in which only the completion tier answers, with an empty text and with
  a host name, and a configuration that enables only that tier.
\<close>

definition emptyReplyWorld :: world where
  "emptyReplyWorld = quietWorld \<lparr> openaiAnswer := (\<lambda>n nm cty st ph. OaContent []),
                                   getCustomerAnswer := (\<lambda>n cd. Inr webowers) \<rparr>"

definition aiReplyWorld :: world where
  "aiReplyWorld = quietWorld \<lparr> openaiAnswer := (\<lambda>n nm cty st ph. OaContent ''www.webowers.com''),
                                getCustomerAnswer := (\<lambda>n cd. Inr webowers) \<rparr>"

definition aiOnlyConfig :: config where
  "aiOnlyConfig = defaultConfig \<lparr> openaiKey := ''sk-test'', enableDomainGuessing := False,
                                  enableGoogleSearch := False, enableOpenAI := True \<rparr>"

text \<open>
  Search results for evaluation: a business directory, two pages of the company with the
  same score, a page on another top-level domain with a telling snippet, and a social
  network; a single result whose link has no scheme; and a single result without a link.
\<close>

definition sampleResults :: "search_item list" where
  "sampleResults =
     [\<lparr> link = Some ''https://www.bbb.org/us/acme'', title = Some ''Acme | BBB'', snippet = None \<rparr>,
      \<lparr> link = Some ''https://www.acme.com/'', title = Some ''Acme | Home'', snippet = None \<rparr>,
      \<lparr> link = Some ''https://acme.org/'', title = Some ''Acme'',
        snippet = Some ''The Official Website of Acme'' \<rparr>,
      \<lparr> link = Some ''https://acme.com/about'', title = Some ''Official Acme'', snippet = None \<rparr>,
      \<lparr> link = Some ''https://www.facebook.com/acme'', title = None, snippet = None \<rparr>]"

definition schemelessResult :: "search_item list" where
  "schemelessResult =
     [\<lparr> link = Some ''www.acme.com'', title = Some ''Acme - Official Site'', snippet = None \<rparr>]"

definition linklessResult :: "search_item list" where
  "linklessResult = [\<lparr> link = None, title = Some ''Acme'', snippet = None \<rparr>]"

section \<open>Properties of the pattern generator\<close>

lemma dedupe_nonempty: "xs \<noteq> [] \<Longrightarrow> dedupe xs \<noteq> []"
  by (cases xs) simp_all

text \<open>
  Claim C4, as the code has it. The candidate list for the company \<open>4Print Wraps, Inc.\<close>
  in the city \<open>Glenburnie\<close>: the function is pure, so the list is the same at every call;
  it has the five distinct entries below, in this order. The name cleans to
  \<open>4print wraps\<close>, and the hyphenated candidate puts a hyphen where the cleaned name has
  white space, which gives \<open>www.4print-wraps.com\<close>.
\<close>

theorem generateDomainPatterns_example:
  "generateDomainPatterns True ''4Print Wraps, Inc.'' (Some ''Glenburnie'') =
     [''www.4printwraps.com'', ''www.4print-wraps.com'', ''www.printwraps.com'',
      ''www.glenburnie4printwraps.com'', ''www.4printwrapsglenburnie.com''] \<and>
   distinct (generateDomainPatterns True ''4Print Wraps, Inc.'' (Some ''Glenburnie'')) \<and>
   cleanCompanyName ''4Print Wraps, Inc.'' = ''4print wraps'' \<and>
   hyphenate ''4print wraps'' = ''4print-wraps''"
  by code_simp

text \<open>
  The claim as stated fails in one entry: no hyphen is put between a digit and a letter,
  so \<open>www.4-print-wraps.com\<close> is not in the list.
\<close>

theorem generateDomainPatterns_digit_hyphen_counterexample:
  "''www.4-print-wraps.com'' \<notin> set (generateDomainPatterns True ''4Print Wraps, Inc.'' (Some ''Glenburnie''))"
  by code_simp

text \<open>
  Claim C10. For every company name the candidate list is non-empty; when the name cleans
  to the empty string and no city (or an empty one) is given, the list under the default
  prefix policy is the single degenerate candidate \<open>www..com\<close>.
\<close>

theorem generateDomainPatterns_nonempty:
  "generateDomainPatterns fw companyName city \<noteq> [] \<and>
   (cleanCompanyName companyName = [] \<longrightarrow> (city = None \<or> city = Some []) \<longrightarrow>
      generateDomainPatterns True companyName city = [''www..com''])"
proof (intro conjI impI)
  show "generateDomainPatterns fw companyName city \<noteq> []"
    unfolding generateDomainPatterns_def Let_def
    by (cases city) (simp_all add: dedupe_nonempty)
next
  assume c: "cleanCompanyName companyName = []" and n: "city = None \<or> city = Some []"
  from n show "generateDomainPatterns True companyName city = [''www..com'']"
    unfolding generateDomainPatterns_def Let_def c
    by (auto simp: hyphenate_def startsWith_def)
qed

theorem generateDomainPatterns_nonempty_witness:
  "cleanCompanyName ''Co., LLC'' = [] \<and> generateDomainPatterns True ''Co., LLC'' None = [''www..com'']"
proof -
  have c: "cleanCompanyName ''Co., LLC'' = []" by code_simp
  with generateDomainPatterns_nonempty [of True "''Co., LLC''" None] show ?thesis by simp
qed

section \<open>Properties of the persist request\<close>

lemma lowerChar_not_upper: "\<not> isUpper (lowerChar c)"
proof -
  have m: "codeUnit (char_of (codeUnit c + 32)) = (codeUnit c + 32) mod 256"
    by (simp add: codeUnit_def)
  have b: "codeUnit c < 256" by (simp add: codeUnit_def)
  show ?thesis
    using b by (auto simp: lowerChar_def isUpper_def m)
qed

lemma toLowerCase_no_upper: "filter isUpper (toLowerCase s) = []"
  by (induction s) (simp_all add: toLowerCase_def lowerChar_not_upper)

lemma sendSave_log: "snd (sendSave W req lg) = lg @ [SoapSaveCustomer req]"
  by (simp add: sendSave_def split: sum.splits)

text \<open>
  Claim C9. Every call \<open>saveCustomerWebsite(id, code, url)\<close> of the enhanced script sends
  one save request, whose website value is \<open>url\<close> in lower case and so holds no upper-case
  letter, although \<open>normalizeDomain\<close> keeps the case of its input on the fallback path:
  \<open>Ab C\<close> is normalised to \<open>www.Ab C\<close>.
\<close>

theorem saveCustomerWebsite_lowercases:
  "snd (saveCustomerWebsite W customerId customerCode websiteUrl lg)
     = lg @ [SoapSaveCustomer (saveRequest customerId customerCode websiteUrl)] \<and>
   req_website (saveRequest customerId customerCode websiteUrl) = toLowerCase websiteUrl \<and>
   filter isUpper (req_website (saveRequest customerId customerCode websiteUrl)) = [] \<and>
   normalizeDomain urlHostname True ''Ab C'' = ''www.Ab C''"
proof (intro conjI)
  show "snd (saveCustomerWebsite W customerId customerCode websiteUrl lg)
     = lg @ [SoapSaveCustomer (saveRequest customerId customerCode websiteUrl)]"
    by (simp add: saveCustomerWebsite_def sendSave_log)
  show "req_website (saveRequest customerId customerCode websiteUrl) = toLowerCase websiteUrl"
    by (simp add: saveRequest_def)
  show "filter isUpper (req_website (saveRequest customerId customerCode websiteUrl)) = []"
    by (simp add: saveRequest_def toLowerCase_no_upper)
  show "normalizeDomain urlHostname True ''Ab C'' = ''www.Ab C''"
    by code_simp
qed

text \<open>
  Claim C6. With a blank identifier and a blank code, the enhanced script's
  \<open>saveCustomerWebsite\<close> sends the identifier \<open>0\<close> and an empty code: it has no fallback to
  the code of the lookup. The TypeScript module computes both substitutes before the
  call and sends the looked-up code, here \<open>ABC123\<close>.
\<close>

theorem saveRequest_blank_code_sent_empty:
  "saveRequest [] [] ''www.example.com''
     = \<lparr> req_id = ''0'', req_code = [], req_website = ''www.example.com'' \<rparr> \<and>
   snd (ts_persist W emptyCustomer ''ABC123'' ''www.example.com'' [])
     = [SoapSaveCustomer \<lparr> req_id = ''0'', req_code = ''ABC123'', req_website = ''www.example.com'' \<rparr>]"
proof (intro conjI)
  show "saveRequest [] [] ''www.example.com''
     = \<lparr> req_id = ''0'', req_code = [], req_website = ''www.example.com'' \<rparr>"
    by code_simp
  show "snd (ts_persist W emptyCustomer ''ABC123'' ''www.example.com'' [])
     = [SoapSaveCustomer \<lparr> req_id = ''0'', req_code = ''ABC123'', req_website = ''www.example.com'' \<rparr>]"
    by (simp add: ts_persist_def ts_saveCustomerWebsite_def sendSave_def emptyCustomer_def nonBlank_def
        Let_def split: sum.splits)
qed

section \<open>Properties of the resolution orchestrator\<close>

lemma calledTiers_append: "calledTiers (xs @ ys) = calledTiers xs @ calledTiers ys"
  by (simp add: calledTiers_def)

lemma tryPatterns_calls: "calledTiers (snd (tryPatterns W ps lg)) = calledTiers lg"
proof (induction ps arbitrary: lg)
  case Nil
  show ?case by simp
next
  case (Cons p ps)
  show ?case
    by (simp add: checkDomainExists_def checkWebsiteResponds_def Let_def Cons.IH calledTiers_append)
       (simp add: calledTiers_def)
qed

lemma guessDomain_calls:
  "calledTiers (snd (guessDomain cfg W n cty lg)) = calledTiers lg @ [TierGuess]"
  by (simp add: guessDomain_def Let_def tryPatterns_calls calledTiers_append)
     (simp add: calledTiers_def)

lemma searchGoogleCSE_calls:
  "calledTiers (snd (searchGoogleCSE U cfg W q lg)) = calledTiers lg @ [TierSearch]"
  by (simp add: searchGoogleCSE_def Let_def calledTiers_append split: cse_response.splits)
     (simp add: calledTiers_def)

lemma searchWithOpenAI_calls:
  "calledTiers (snd (searchWithOpenAI U cfg W n cty st ph lg)) = calledTiers lg @ [TierAI]"
  by (simp add: searchWithOpenAI_def Let_def calledTiers_append split: openai_response.splits)
     (simp add: calledTiers_def)

lemma runTier_calls: "calledTiers (snd (runTier U cfg W c t lg)) = calledTiers lg @ [t]"
  by (cases t) (simp_all add: runTier_def guessDomain_calls searchGoogleCSE_calls searchWithOpenAI_calls)

lemma firstSuccess_calls:
  "\<exists>called rest.
     calledTiers (snd (firstSuccess U cfg W c ts lg)) = calledTiers lg @ called \<and>
     filter (tierEnabled cfg) ts = called @ rest \<and>
     (fst (firstSuccess U cfg W c ts lg) = None \<longrightarrow> rest = [])"
proof (induction ts arbitrary: lg)
  case Nil
  show ?case by simp
next
  case (Cons t ts)
  show ?case
  proof (cases "tierEnabled cfg t")
    case False
    with Cons.IH [of lg] show ?thesis by simp
  next
    case True
    obtain r lg1 where run: "runTier U cfg W c t lg = (r, lg1)" by (cases "runTier U cfg W c t lg")
    have calls: "calledTiers lg1 = calledTiers lg @ [t]"
      using runTier_calls [of U cfg W c t lg] run by simp
    show ?thesis
    proof (cases r)
      case (Some cand)
      have "calledTiers (snd (firstSuccess U cfg W c (t # ts) lg)) = calledTiers lg @ [t]"
        using True run Some calls by simp
      moreover have "filter (tierEnabled cfg) (t # ts) = [t] @ filter (tierEnabled cfg) ts"
        using True by simp
      moreover have "fst (firstSuccess U cfg W c (t # ts) lg) \<noteq> None"
        using True run Some by simp
      ultimately show ?thesis
        by - (rule exI [of _ "[t]"], rule exI [of _ "filter (tierEnabled cfg) ts"], intro conjI impI, assumption, assumption, erule notE, assumption)
    next
      case None
      from Cons.IH [of lg1] obtain called rest where
        a: "calledTiers (snd (firstSuccess U cfg W c ts lg1)) = calledTiers lg1 @ called" and
        b: "filter (tierEnabled cfg) ts = called @ rest" and
        d: "fst (firstSuccess U cfg W c ts lg1) = None \<longrightarrow> rest = []"
        by (elim exE conjE)
      have eq: "firstSuccess U cfg W c (t # ts) lg = firstSuccess U cfg W c ts lg1"
        using True run None by simp
      have "calledTiers (snd (firstSuccess U cfg W c (t # ts) lg)) = calledTiers lg @ (t # called)"
        using eq a calls by simp
      moreover have "filter (tierEnabled cfg) (t # ts) = (t # called) @ rest"
        using True b by simp
      moreover have "fst (firstSuccess U cfg W c (t # ts) lg) = None \<longrightarrow> rest = []"
        using eq d by simp
      ultimately show ?thesis
        by - (rule exI [of _ "t # called"], rule exI [of _ rest], intro conjI, assumption, assumption, assumption)
    qed
  qed
qed

lemma firstSuccess_last:
  "fst (firstSuccess U cfg W c ts lg) = Some r \<Longrightarrow>
   \<exists>t lg0. t \<in> set ts \<and> tierEnabled cfg t \<and>
            runTier U cfg W c t lg0 = (Some r, snd (firstSuccess U cfg W c ts lg))"
proof (induction ts arbitrary: lg)
  case Nil
  then show ?case by simp
next
  case (Cons t ts)
  show ?case
  proof (cases "tierEnabled cfg t")
    case False
    with Cons.prems have "fst (firstSuccess U cfg W c ts lg) = Some r" by simp
    from Cons.IH [OF this] False show ?thesis by auto
  next
    case True
    obtain r1 lg1 where run: "runTier U cfg W c t lg = (r1, lg1)" by (cases "runTier U cfg W c t lg")
    show ?thesis
    proof (cases r1)
      case (Some cand)
      with True run Cons.prems have "cand = r" by simp
      with True run Some show ?thesis by (intro exI [of _ t] exI [of _ lg]) simp
    next
      case None
      with True run Cons.prems have "fst (firstSuccess U cfg W c ts lg1) = Some r" by simp
      from Cons.IH [OF this] True run None show ?thesis by auto
    qed
  qed
qed

lemma findWebsite_firstSuccess:
  "findWebsite U cfg W c lg = firstSuccess U cfg W c [TierGuess, TierSearch, TierAI] lg"
  by (simp add: findWebsite_def tierEnabled_def runTier_def split: prod.splits option.splits)

text \<open>
  Claim C1. \<open>findWebsite\<close> is the walk over domain guessing, search and the OpenAI tier
  in that order. The tiers it invokes form an initial part of the enabled tiers in the
  fixed order, so a disabled tier is never invoked and a tier is invoked only after all
  enabled tiers before it; when the result is null every enabled tier was invoked; when
  the result is a candidate it is what the last invoked tier returned, and the log ends
  where that tier ended. The function is total: all tiers returning null gives null.
\<close>

theorem findWebsite_tier_order:
  "findWebsite U cfg W c lg = firstSuccess U cfg W c [TierGuess, TierSearch, TierAI] lg \<and>
   (\<exists>called rest.
      calledTiers (snd (findWebsite U cfg W c lg)) = calledTiers lg @ called \<and>
      enabledTiers cfg = called @ rest \<and>
      (fst (findWebsite U cfg W c lg) = None \<longrightarrow> rest = [])) \<and>
   (\<forall>r. fst (findWebsite U cfg W c lg) = Some r \<longrightarrow>
      (\<exists>t lg0. tierEnabled cfg t \<and> runTier U cfg W c t lg0 = (Some r, snd (findWebsite U cfg W c lg))))"
proof (intro conjI allI impI)
  show "findWebsite U cfg W c lg = firstSuccess U cfg W c [TierGuess, TierSearch, TierAI] lg"
    by (rule findWebsite_firstSuccess)
  show "\<exists>called rest.
      calledTiers (snd (findWebsite U cfg W c lg)) = calledTiers lg @ called \<and>
      enabledTiers cfg = called @ rest \<and>
      (fst (findWebsite U cfg W c lg) = None \<longrightarrow> rest = [])"
    unfolding findWebsite_firstSuccess enabledTiers_def by (rule firstSuccess_calls)
next
  fix r assume "fst (findWebsite U cfg W c lg) = Some r"
  then have "fst (firstSuccess U cfg W c [TierGuess, TierSearch, TierAI] lg) = Some r"
    by (simp add: findWebsite_firstSuccess)
  from firstSuccess_last [OF this]
  show "\<exists>t lg0. tierEnabled cfg t \<and> runTier U cfg W c t lg0 = (Some r, snd (findWebsite U cfg W c lg))"
    unfolding findWebsite_firstSuccess by blast
qed

theorem findWebsite_tier_order_witness:
  "fst (findWebsite urlHostname defaultConfig quietWorld webowers []) = None \<and>
   calledTiers (snd (findWebsite urlHostname defaultConfig quietWorld webowers [])) = enabledTiers defaultConfig \<and>
   fst (findWebsite urlHostname defaultConfig liveWorld webowers []) =
     Some \<lparr> url = ''www.webowers.com'', confidence = High, source = Domain_guess, allResults = None \<rparr> \<and>
   (\<exists>t lg0. tierEnabled defaultConfig t \<and>
      runTier urlHostname defaultConfig liveWorld webowers t lg0 =
        (Some \<lparr> url = ''www.webowers.com'', confidence = High, source = Domain_guess, allResults = None \<rparr>,
         snd (findWebsite urlHostname defaultConfig liveWorld webowers [])))"
proof -
  have q: "fst (findWebsite urlHostname defaultConfig quietWorld webowers []) = None"
    by code_simp
  have l: "fst (findWebsite urlHostname defaultConfig liveWorld webowers []) =
     Some \<lparr> url = ''www.webowers.com'', confidence = High, source = Domain_guess, allResults = None \<rparr>"
    by code_simp
  have e: "calledTiers [] = []" by (simp add: calledTiers_def)
  from findWebsite_tier_order [of urlHostname defaultConfig quietWorld webowers "[]"] q e
  have 1: "calledTiers (snd (findWebsite urlHostname defaultConfig quietWorld webowers [])) = enabledTiers defaultConfig"
    by auto
  from findWebsite_tier_order [of urlHostname defaultConfig liveWorld webowers "[]"] l
  have 2: "\<exists>t lg0. tierEnabled defaultConfig t \<and>
      runTier urlHostname defaultConfig liveWorld webowers t lg0 =
        (Some \<lparr> url = ''www.webowers.com'', confidence = High, source = Domain_guess, allResults = None \<rparr>,
         snd (findWebsite urlHostname defaultConfig liveWorld webowers []))"
    by blast
  from q 1 l 2 show ?thesis by blast
qed

section \<open>Properties of the search tier\<close>

lemma those_Some_map: "those xs = Some ys \<Longrightarrow> xs = map Some ys"
  by (induction xs arbitrary: ys) (auto split: option.splits)

lemma scoreItem_Some:
  "scoreItem i = Some s \<Longrightarrow>
   s_url s = orEmpty (link i) \<and>
   s_score s = scoreOf (orEmpty (link i)) (toLowerCase (orEmpty (title i))) (toLowerCase (orEmpty (snippet i)))"
  by (auto simp: scoreItem_def orEmpty_def Let_def split: option.splits)

lemma sortByScore_sorted: "sorted_wrt (\<lambda>a b. s_score b \<le> s_score a) (sortByScore xs)"
proof -
  have "sorted (map (\<lambda>s. - s_score s) (sortByScore xs))"
    unfolding sortByScore_def by (rule sorted_sort_key)
  then show ?thesis by (simp add: sorted_map)
qed

lemma sortByScore_stable:
  "filter (\<lambda>s. s_score s = k) (sortByScore xs) = filter (\<lambda>s. s_score s = k) xs"
proof -
  have "filter (\<lambda>s. - s_score s = - k) (sort_key (\<lambda>s. - s_score s) xs)
          = filter (\<lambda>s. - s_score s = - k) xs"
    by (rule sort_key_stable)
  then show ?thesis by (simp add: sortByScore_def)
qed

lemma sortByScore_set: "set (sortByScore xs) = set xs"
  by (simp add: sortByScore_def)

lemma sortByScore_length: "length (sortByScore xs) = length xs"
  by (simp add: sortByScore_def)

lemma those_None_iff: "those xs = None \<longleftrightarrow> None \<in> set xs"
  by (induction xs) (auto split: option.splits)

lemma scoreItem_None: "scoreItem i = None \<longleftrightarrow> link i = None"
  by (simp add: scoreItem_def Let_def split: option.splits)

lemma scoreOf_explicit:
  "scoreOf u ttl snip =
     (if includesStr u ''.com'' then 10 else 0)
     + (if includesStr ttl ''official'' \<or> includesStr ttl ''home'' then 5 else 0)
     + (if includesStr snip ''official website'' then 5 else 0)
     - (if includesStr u ''facebook.com'' \<or> includesStr u ''linkedin.com'' \<or>
           includesStr u ''twitter.com'' \<or> includesStr u ''yelp.com'' \<or>
           includesStr u ''yellowpages.com'' \<or> includesStr u ''bbb.org'' then 20 else 0)"
  by (simp add: scoreOf_def badDomains_def)

text \<open>
  Claim C5, as the code has it. An empty result list, or one with an item that has no
  link, gives null. Otherwise every item is scored on its link and its lower-cased title
  and snippet: 0, plus 10 if the link contains \<open>.com\<close>, plus 5 if the title contains
  \<open>official\<close> or \<open>home\<close>, plus 5 if the snippet contains \<open>official website\<close>, minus 20
  if the link contains one of the six blocklisted domains. The ranking is sorted by
  descending score and keeps the provider's order among equal scores, so the top entry
  has the greatest score and is the first of the items with that score. A negative top
  score gives null. Otherwise the outcome depends on the URL parser: when the top link
  parses, the candidate is its normalised host name, with confidence high exactly when
  the score is at least 10, and all ranked links as alternates; when the top link does
  not parse, the result is null. The tier returns this result when it is enabled, has
  both keys and receives a JSON answer, and null in every other case.
\<close>

theorem rankResults_ranking:
  "(items = [] \<or> list_ex (\<lambda>i. link i = None) items \<longrightarrow> rankResults U fw items = None) \<and>
   (items \<noteq> [] \<and> list_all (\<lambda>i. link i \<noteq> None) items \<longrightarrow>
     (\<exists>scoredItems best rest.
        those (map scoreItem items) = Some scoredItems \<and>
        map s_url scoredItems = map (\<lambda>i. orEmpty (link i)) items \<and>
        map s_score scoredItems =
          map (\<lambda>i. (if includesStr (orEmpty (link i)) ''.com'' then 10 else 0)
                   + (if includesStr (toLowerCase (orEmpty (title i))) ''official'' \<or>
                         includesStr (toLowerCase (orEmpty (title i))) ''home'' then 5 else 0)
                   + (if includesStr (toLowerCase (orEmpty (snippet i))) ''official website''
                      then 5 else 0)
                   - (if includesStr (orEmpty (link i)) ''facebook.com'' \<or>
                         includesStr (orEmpty (link i)) ''linkedin.com'' \<or>
                         includesStr (orEmpty (link i)) ''twitter.com'' \<or>
                         includesStr (orEmpty (link i)) ''yelp.com'' \<or>
                         includesStr (orEmpty (link i)) ''yellowpages.com'' \<or>
                         includesStr (orEmpty (link i)) ''bbb.org'' then 20 else 0)) items \<and>
        sortByScore scoredItems = best # rest \<and>
        sorted_wrt (\<lambda>a b. s_score b \<le> s_score a) (best # rest) \<and>
        (\<forall>k. filter (\<lambda>s. s_score s = k) (best # rest) = filter (\<lambda>s. s_score s = k) scoredItems) \<and>
        (\<forall>s \<in> set scoredItems. s_score s \<le> s_score best) \<and>
        best = hd (filter (\<lambda>s. s_score s = s_score best) scoredItems) \<and>
        rankResults U fw items =
          (if s_score best < 0 then None
           else case U (s_url best) of
                  None \<Rightarrow> None
                | Some hostname \<Rightarrow>
                    Some \<lparr> url = normalizeDomain U fw hostname,
                           confidence = (if 10 \<le> s_score best then High else Medium),
                           source = Google_cse,
                           allResults = Some (map s_url (best # rest)) \<rparr>))) \<and>
   fst (searchGoogleCSE U cfg W query lg) =
     (if enableGoogleSearch cfg \<and> googleCseKey cfg \<noteq> [] \<and> googleCx cfg \<noteq> []
      then (case cseAnswer W (Suc (length lg)) query of
              CseJson found \<Rightarrow> rankResults U (forceWww cfg) found
            | CseTransportError \<Rightarrow> None
            | CseNotJson \<Rightarrow> None)
      else None)"
proof (intro conjI impI)
  assume "items = [] \<or> list_ex (\<lambda>i. link i = None) items"
  then show "rankResults U fw items = None"
  proof
    assume "items = []"
    then show ?thesis by (simp add: rankResults_def)
  next
    assume "list_ex (\<lambda>i. link i = None) items"
    then obtain i where "i \<in> set items" "link i = None" by (auto simp: list_ex_iff)
    then have "None \<in> set (map scoreItem items)"
      using scoreItem_None [of i] by (metis image_eqI list.set_map)
    then have "those (map scoreItem items) = None" by (simp only: those_None_iff)
    then show ?thesis by (simp add: rankResults_def)
  qed
next
  assume a: "items \<noteq> [] \<and> list_all (\<lambda>i. link i \<noteq> None) items"
  then have nonempty: "items \<noteq> []" and links: "\<forall>i \<in> set items. link i \<noteq> None"
    by (simp_all add: list_all_iff)
  have "None \<notin> set (map scoreItem items)"
  proof
    assume "None \<in> set (map scoreItem items)"
    then obtain i where "i \<in> set items" "scoreItem i = None" by auto
    with links scoreItem_None [of i] show False by auto
  qed
  then have "those (map scoreItem items) \<noteq> None" by (simp add: those_None_iff)
  then obtain scoredItems where scoredAll: "those (map scoreItem items) = Some scoredItems" by auto
  have m: "map scoreItem items = map Some scoredItems"
    using scoredAll by (rule those_Some_map)
  then have len: "length scoredItems = length items"
    by (metis length_map)
  have each: "\<And>n. n < length items \<Longrightarrow> scoreItem (items ! n) = Some (scoredItems ! n)"
  proof -
    fix n assume n: "n < length items"
    then have "map scoreItem items ! n = scoreItem (items ! n)" by simp
    moreover have "map Some scoredItems ! n = Some (scoredItems ! n)" using n len by simp
    ultimately show "scoreItem (items ! n) = Some (scoredItems ! n)" using m by simp
  qed
  have urls: "map s_url scoredItems = map (\<lambda>i. orEmpty (link i)) items"
    by (rule nth_equalityI) (simp_all add: len scoreItem_Some [OF each])
  have scores: "map s_score scoredItems =
          map (\<lambda>i. (if includesStr (orEmpty (link i)) ''.com'' then 10 else 0)
                   + (if includesStr (toLowerCase (orEmpty (title i))) ''official'' \<or>
                         includesStr (toLowerCase (orEmpty (title i))) ''home'' then 5 else 0)
                   + (if includesStr (toLowerCase (orEmpty (snippet i))) ''official website''
                      then 5 else 0)
                   - (if includesStr (orEmpty (link i)) ''facebook.com'' \<or>
                         includesStr (orEmpty (link i)) ''linkedin.com'' \<or>
                         includesStr (orEmpty (link i)) ''twitter.com'' \<or>
                         includesStr (orEmpty (link i)) ''yelp.com'' \<or>
                         includesStr (orEmpty (link i)) ''yellowpages.com'' \<or>
                         includesStr (orEmpty (link i)) ''bbb.org'' then 20 else 0)) items"
    by (rule nth_equalityI) (simp_all add: len scoreItem_Some [OF each] scoreOf_explicit)
  from nonempty len have "sortByScore scoredItems \<noteq> []"
    by (metis length_0_conv sortByScore_length)
  then obtain best rest where br: "sortByScore scoredItems = best # rest"
    by (cases "sortByScore scoredItems") auto
  have srt: "sorted_wrt (\<lambda>a b. s_score b \<le> s_score a) (best # rest)"
    using sortByScore_sorted [of scoredItems] br by simp
  have stb: "\<forall>k. filter (\<lambda>s. s_score s = k) (best # rest) = filter (\<lambda>s. s_score s = k) scoredItems"
    using sortByScore_stable [of _ scoredItems] br by simp
  have mx: "\<forall>s \<in> set scoredItems. s_score s \<le> s_score best"
  proof
    fix s assume "s \<in> set scoredItems"
    then have "s \<in> set (best # rest)" using br sortByScore_set [of scoredItems] by simp
    moreover have "\<forall>y \<in> set rest. s_score y \<le> s_score best"
      using srt by simp
    ultimately show "s_score s \<le> s_score best" by auto
  qed
  have "filter (\<lambda>s. s_score s = s_score best) scoredItems
          = filter (\<lambda>s. s_score s = s_score best) (best # rest)"
    using sortByScore_stable [of "s_score best" scoredItems] br by simp
  then have first: "best = hd (filter (\<lambda>s. s_score s = s_score best) scoredItems)"
    by simp
  have res: "rankResults U fw items =
         (if s_score best < 0 then None
          else case U (s_url best) of
                 None \<Rightarrow> None
               | Some hostname \<Rightarrow>
                   Some \<lparr> url = normalizeDomain U fw hostname,
                          confidence = (if 10 \<le> s_score best then High else Medium),
                          source = Google_cse,
                          allResults = Some (map s_url (best # rest)) \<rparr>)"
    using nonempty scoredAll br by (simp add: rankResults_def split: option.splits)
  show "\<exists>scoredItems best rest.
        those (map scoreItem items) = Some scoredItems \<and>
        map s_url scoredItems = map (\<lambda>i. orEmpty (link i)) items \<and>
        map s_score scoredItems =
          map (\<lambda>i. (if includesStr (orEmpty (link i)) ''.com'' then 10 else 0)
                   + (if includesStr (toLowerCase (orEmpty (title i))) ''official'' \<or>
                         includesStr (toLowerCase (orEmpty (title i))) ''home'' then 5 else 0)
                   + (if includesStr (toLowerCase (orEmpty (snippet i))) ''official website''
                      then 5 else 0)
                   - (if includesStr (orEmpty (link i)) ''facebook.com'' \<or>
                         includesStr (orEmpty (link i)) ''linkedin.com'' \<or>
                         includesStr (orEmpty (link i)) ''twitter.com'' \<or>
                         includesStr (orEmpty (link i)) ''yelp.com'' \<or>
                         includesStr (orEmpty (link i)) ''yellowpages.com'' \<or>
                         includesStr (orEmpty (link i)) ''bbb.org'' then 20 else 0)) items \<and>
        sortByScore scoredItems = best # rest \<and>
        sorted_wrt (\<lambda>a b. s_score b \<le> s_score a) (best # rest) \<and>
        (\<forall>k. filter (\<lambda>s. s_score s = k) (best # rest) = filter (\<lambda>s. s_score s = k) scoredItems) \<and>
        (\<forall>s \<in> set scoredItems. s_score s \<le> s_score best) \<and>
        best = hd (filter (\<lambda>s. s_score s = s_score best) scoredItems) \<and>
        rankResults U fw items =
          (if s_score best < 0 then None
           else case U (s_url best) of
                  None \<Rightarrow> None
                | Some hostname \<Rightarrow>
                    Some \<lparr> url = normalizeDomain U fw hostname,
                           confidence = (if 10 \<le> s_score best then High else Medium),
                           source = Google_cse,
                           allResults = Some (map s_url (best # rest)) \<rparr>)"
    apply (rule exI [of _ scoredItems], rule exI [of _ best], rule exI [of _ rest])
    apply (intro conjI)
            apply (rule scoredAll)
           apply (rule urls)
          apply (rule scores)
         apply (rule br)
        apply (rule srt)
       apply (rule stb)
      apply (rule mx)
     apply (rule first)
    apply (rule res)
    done
next
  show "fst (searchGoogleCSE U cfg W query lg) =
     (if enableGoogleSearch cfg \<and> googleCseKey cfg \<noteq> [] \<and> googleCx cfg \<noteq> []
      then (case cseAnswer W (Suc (length lg)) query of
              CseJson found \<Rightarrow> rankResults U (forceWww cfg) found
            | CseTransportError \<Rightarrow> None
            | CseNotJson \<Rightarrow> None)
      else None)"
    by (simp add: searchGoogleCSE_def Let_def split: cse_response.splits)
qed


theorem rankResults_ranking_witness:
  "rankResults urlHostname True linklessResult = None \<and>
   (\<exists>scoredItems.
      those (map scoreItem sampleResults) = Some scoredItems \<and>
      map s_score scoredItems = [- 20, 15, 5, 15, - 10] \<and>
      map s_url (sortByScore scoredItems) =
        [''https://www.acme.com/'', ''https://acme.com/about'', ''https://acme.org/'',
         ''https://www.facebook.com/acme'', ''https://www.bbb.org/us/acme'']) \<and>
   rankResults urlHostname True sampleResults =
     Some \<lparr> url = ''www.acme.com'', confidence = High, source = Google_cse,
            allResults = Some [''https://www.acme.com/'', ''https://acme.com/about'',
                               ''https://acme.org/'', ''https://www.facebook.com/acme'',
                               ''https://www.bbb.org/us/acme''] \<rparr> \<and>
   rankResults urlHostname True [sampleResults ! 2] =
     Some \<lparr> url = ''www.acme.org'', confidence = Medium, source = Google_cse,
            allResults = Some [''https://acme.org/''] \<rparr> \<and>
   rankResults urlHostname True [sampleResults ! 4, sampleResults ! 0] = None"
proof -
  note t = rankResults_ranking [of linklessResult urlHostname True defaultConfig quietWorld "[]" "[]"]
  have l: "linklessResult = [] \<or> list_ex (\<lambda>i. link i = None) linklessResult"
    by (simp add: linklessResult_def)
  from t [THEN conjunct1, THEN mp, OF l]
  have a: "rankResults urlHostname True linklessResult = None" .
  note t2 = rankResults_ranking [of sampleResults urlHostname True defaultConfig quietWorld "[]" "[]"]
  have h: "sampleResults \<noteq> [] \<and> list_all (\<lambda>i. link i \<noteq> None) sampleResults"
    by (simp add: sampleResults_def)
  from t2 [THEN conjunct2, THEN conjunct1, THEN mp, OF h]
  obtain scoredItems where
    s1: "those (map scoreItem sampleResults) = Some scoredItems" and
    s2: "map s_score scoredItems =
          map (\<lambda>i. (if includesStr (orEmpty (link i)) ''.com'' then 10 else 0)
                   + (if includesStr (toLowerCase (orEmpty (title i))) ''official'' \<or>
                         includesStr (toLowerCase (orEmpty (title i))) ''home'' then 5 else 0)
                   + (if includesStr (toLowerCase (orEmpty (snippet i))) ''official website''
                      then 5 else 0)
                   - (if includesStr (orEmpty (link i)) ''facebook.com'' \<or>
                         includesStr (orEmpty (link i)) ''linkedin.com'' \<or>
                         includesStr (orEmpty (link i)) ''twitter.com'' \<or>
                         includesStr (orEmpty (link i)) ''yelp.com'' \<or>
                         includesStr (orEmpty (link i)) ''yellowpages.com'' \<or>
                         includesStr (orEmpty (link i)) ''bbb.org'' then 20 else 0)) sampleResults"
    by (elim exE conjE)
  have ev: "map (\<lambda>i. (if includesStr (orEmpty (link i)) ''.com'' then 10 else 0)
                   + (if includesStr (toLowerCase (orEmpty (title i))) ''official'' \<or>
                         includesStr (toLowerCase (orEmpty (title i))) ''home'' then 5 else 0)
                   + (if includesStr (toLowerCase (orEmpty (snippet i))) ''official website''
                      then 5 else 0)
                   - (if includesStr (orEmpty (link i)) ''facebook.com'' \<or>
                         includesStr (orEmpty (link i)) ''linkedin.com'' \<or>
                         includesStr (orEmpty (link i)) ''twitter.com'' \<or>
                         includesStr (orEmpty (link i)) ''yelp.com'' \<or>
                         includesStr (orEmpty (link i)) ''yellowpages.com'' \<or>
                         includesStr (orEmpty (link i)) ''bbb.org'' then 20 else 0)) sampleResults
            = [- 20, 15, 5, 15, - 10 :: int]"
    by code_simp
  have srt: "map s_url (sortByScore (the (those (map scoreItem sampleResults)))) =
        [''https://www.acme.com/'', ''https://acme.com/about'', ''https://acme.org/'',
         ''https://www.facebook.com/acme'', ''https://www.bbb.org/us/acme'']"
    by code_simp
  from s1 s2 ev srt have b: "\<exists>scoredItems.
      those (map scoreItem sampleResults) = Some scoredItems \<and>
      map s_score scoredItems = [- 20, 15, 5, 15, - 10] \<and>
      map s_url (sortByScore scoredItems) =
        [''https://www.acme.com/'', ''https://acme.com/about'', ''https://acme.org/'',
         ''https://www.facebook.com/acme'', ''https://www.bbb.org/us/acme'']"
    by simp
  have c: "rankResults urlHostname True sampleResults =
     Some \<lparr> url = ''www.acme.com'', confidence = High, source = Google_cse,
            allResults = Some [''https://www.acme.com/'', ''https://acme.com/about'',
                               ''https://acme.org/'', ''https://www.facebook.com/acme'',
                               ''https://www.bbb.org/us/acme''] \<rparr>"
    by code_simp
  have d: "rankResults urlHostname True [sampleResults ! 2] =
     Some \<lparr> url = ''www.acme.org'', confidence = Medium, source = Google_cse,
            allResults = Some [''https://acme.org/''] \<rparr>"
    by code_simp
  have e: "rankResults urlHostname True [sampleResults ! 4, sampleResults ! 0] = None"
    by code_simp
  from a b c d e show ?thesis by (intro conjI)
qed

text \<open>
  The claim as stated fails where the top link is not an absolute URL: the only result
  \<open>www.acme.com\<close> scores 15, which is not negative, and the tier still returns null. It
  fails as well for a result without a link, which is not scored at all.
\<close>

theorem rankResults_schemeless_counterexample:
  "those (map scoreItem schemelessResult) =
     Some [\<lparr> s_url = ''www.acme.com'', s_title = ''acme - official site'', s_score = 15 \<rparr>] \<and>
   rankResults urlHostname True schemelessResult = None \<and>
   rankResults urlHostname True linklessResult = None"
  by code_simp

section \<open>Properties of the batch processor\<close>

lemma recordOutcome_step:
  "done_count (fst (recordOutcome cd res (r, d))) = Suc (done_count r) \<and>
   tally.total (fst (recordOutcome cd res (r, d))) = tally.total r"
  by (simp add: recordOutcome_def done_count_def)

lemma processRows_counts:
  "done_count (fst (fst (processRows U cfg W opts items (r, d) lg))) = done_count r + length items \<and>
   tally.total (fst (fst (processRows U cfg W opts items (r, d) lg))) = tally.total r"
proof (induction items arbitrary: r d lg)
  case Nil
  show ?case by simp
next
  case (Cons item items)
  obtain res lg1 where p: "processCustomer U cfg W (rowCode item) (opts \<lparr> website := rowWebsite item \<rparr>) lg = (res, lg1)"
    by (cases "processCustomer U cfg W (rowCode item) (opts \<lparr> website := rowWebsite item \<rparr>) lg")
  obtain r1 d1 where ro: "recordOutcome (rowCode item) res (r, d) = (r1, d1)"
    by (cases "recordOutcome (rowCode item) res (r, d)")
  from recordOutcome_step [of "rowCode item" res r d] ro
  have s: "done_count r1 = Suc (done_count r)" "tally.total r1 = tally.total r" by simp_all
  from Cons.IH [of r1 d1 lg1] p ro s show ?case by simp
qed

lemma ts_count_step:
  "done_count (ts_count res r) = Suc (done_count r) \<and> tally.total (ts_count res r) = tally.total r"
  by (simp add: ts_count_def done_count_def)

lemma ts_processRows_counts:
  "ts_processRows U W rl opts items r lg = (Inr r', lg') \<Longrightarrow>
   done_count r' \<le> done_count r + length items \<and> tally.total r' = tally.total r"
proof (induction items arbitrary: r lg)
  case Nil
  then show ?case by simp
next
  case (Cons item items)
  obtain res lg1 where p: "ts_processCustomer U W rl (rowCode item) (opts \<lparr> website := rowWebsite item \<rparr>) lg = (res, lg1)"
    by (cases "ts_processCustomer U W rl (rowCode item) (opts \<lparr> website := rowWebsite item \<rparr>) lg")
  note s = ts_count_step [of res r]
  show ?case
  proof (cases "\<not> nonInteractive opts \<and> items \<noteq> []")
    case False
    with Cons.prems p have "ts_processRows U W rl opts items (ts_count res r) lg1 = (Inr r', lg')"
      by (auto simp: Let_def)
    from Cons.IH [OF this] s show ?thesis by simp
  next
    case True
    with Cons.prems p have rl: "rl" by (auto simp: Let_def split: if_splits)
    obtain cont lg2 where q: "question W lg1 = (cont, lg2)" by (cases "question W lg1")
    show ?thesis
    proof (cases "toLowerCase cont = ''y''")
      case False
      with Cons.prems p True rl q have "r' = ts_count res r" by (simp add: Let_def)
      with s show ?thesis by simp
    next
      case y: True
      with Cons.prems p True rl q have "ts_processRows U W rl opts items (ts_count res r) lg2 = (Inr r', lg')"
        by (simp add: Let_def)
      from Cons.IH [OF this] s show ?thesis by simp
    qed
  qed
qed

lemma ts_processRows_unattended:
  "nonInteractive opts \<Longrightarrow>
   \<exists>r'. fst (ts_processRows U W rl opts items r lg) = Inr r' \<and>
        done_count r' = done_count r + length items \<and> tally.total r' = tally.total r"
proof (induction items arbitrary: r lg)
  case Nil
  show ?case by simp
next
  case (Cons item items)
  obtain res lg1 where p: "ts_processCustomer U W rl (rowCode item) (opts \<lparr> website := rowWebsite item \<rparr>) lg = (res, lg1)"
    by (cases "ts_processCustomer U W rl (rowCode item) (opts \<lparr> website := rowWebsite item \<rparr>) lg")
  note s = ts_count_step [of res r]
  from Cons.IH [OF Cons.prems, of "ts_count res r" lg1] obtain r' where
    "fst (ts_processRows U W rl opts items (ts_count res r) lg1) = Inr r'"
    "done_count r' = done_count (ts_count res r) + length items"
    "tally.total r' = tally.total (ts_count res r)"
    by (elim exE conjE)
  with Cons.prems p s show ?case by (simp add: Let_def)
qed

lemma fetchedCodes_append: "fetchedCodes (xs @ ys) = fetchedCodes xs @ fetchedCodes ys"
  by (simp add: fetchedCodes_def)

lemma question_fetched: "fetchedCodes (snd (question W lg)) = fetchedCodes lg"
  by (simp add: question_def fetchedCodes_def)

lemma sendSave_fetched: "fetchedCodes (snd (sendSave W req lg)) = fetchedCodes lg"
  by (simp add: sendSave_log fetchedCodes_def)

lemma ts_persist_fetched: "fetchedCodes (snd (ts_persist W c cd u lg)) = fetchedCodes lg"
proof -
  have "snd (ts_persist W c cd u lg)
          = snd (sendSave W \<lparr> req_id = (if nonBlank (cust_id c) then cust_id c else ''0''),
                              req_code = (if nonBlank (cust_code c) then cust_code c else cd),
                              req_website = u \<rparr> lg)"
    by (simp add: ts_persist_def ts_saveCustomerWebsite_def Let_def split: prod.splits sum.splits)
  then show ?thesis by (simp only: sendSave_fetched)
qed

lemma ts_enterAndSave_fetched:
  "fetchedCodes (snd (ts_enterAndSave U W rl c cd opts lg)) = fetchedCodes lg"
proof -
  obtain a lga where qa: "question W lg = (a, lga)" by (cases "question W lg")
  with question_fetched [of W lg] have fa: "fetchedCodes lga = fetchedCodes lg" by simp
  obtain b lgb where qb: "question W lga = (b, lgb)" by (cases "question W lga")
  with question_fetched [of W lga] fa have fb: "fetchedCodes lgb = fetchedCodes lg" by simp
  obtain b' lgb' where qb': "question W lg = (b', lgb')" by (cases "question W lg")
  show ?thesis
    using qa fa qb fb
    by (simp add: ts_enterAndSave_def Let_def ts_persist_fetched errorOutcome_def skippedOutcome_def)
qed

lemma ts_processCustomer_fetched:
  "fetchedCodes (snd (ts_processCustomer U W rl cd opts lg)) = fetchedCodes lg @ [cd]"
proof -
  have g: "fetchedCodes (lg @ [SoapGetCustomer cd]) = fetchedCodes lg @ [cd]"
    by (simp add: fetchedCodes_def)
  obtain a lga where qa: "question W (lg @ [SoapGetCustomer cd]) = (a, lga)"
    by (cases "question W (lg @ [SoapGetCustomer cd])")
  with question_fetched [of W "lg @ [SoapGetCustomer cd]"] g
  have fa: "fetchedCodes lga = fetchedCodes lg @ [cd]" by simp
  show ?thesis
    using g qa fa
    by (simp add: ts_processCustomer_def getCustomer_def ts_enterAndSave_fetched
        split: sum.splits)
qed

lemma ts_processRows_processed:
  "ts_processRows U W rl opts items r lg = (Inr r', lg') \<Longrightarrow>
   done_count r \<le> done_count r' \<and>
   done_count r' \<le> done_count r + length items \<and>
   (items \<noteq> [] \<longrightarrow> done_count r < done_count r') \<and>
   fetchedCodes lg' = fetchedCodes lg @ map rowCode (take (done_count r' - done_count r) items)"
proof (induction items arbitrary: r lg)
  case Nil
  then show ?case by simp
next
  case (Cons item items)
  obtain res lg1 where p: "ts_processCustomer U W rl (rowCode item) (opts \<lparr> website := rowWebsite item \<rparr>) lg = (res, lg1)"
    by (cases "ts_processCustomer U W rl (rowCode item) (opts \<lparr> website := rowWebsite item \<rparr>) lg")
  have s: "done_count (ts_count res r) = Suc (done_count r)"
    using ts_count_step [of res r] by simp
  have f1: "fetchedCodes lg1 = fetchedCodes lg @ [rowCode item]"
    using ts_processCustomer_fetched [of U W rl "rowCode item" "opts \<lparr> website := rowWebsite item \<rparr>" lg] p
    by simp
  obtain cont lg2 where q: "question W lg1 = (cont, lg2)" by (cases "question W lg1")
  have f2: "fetchedCodes lg2 = fetchedCodes lg @ [rowCode item]"
    using question_fetched [of W lg1] q f1 by simp
  have rec: "\<And>lgx. fetchedCodes lgx = fetchedCodes lg @ [rowCode item] \<Longrightarrow>
               ts_processRows U W rl opts items (ts_count res r) lgx = (Inr r', lg') \<Longrightarrow> ?case"
  proof -
    fix lgx
    assume fx: "fetchedCodes lgx = fetchedCodes lg @ [rowCode item]"
      and run: "ts_processRows U W rl opts items (ts_count res r) lgx = (Inr r', lg')"
    from Cons.IH [OF run] s
    have a: "Suc (done_count r) \<le> done_count r'"
      and b: "done_count r' \<le> Suc (done_count r) + length items"
      and c: "fetchedCodes lg' = fetchedCodes lgx @ map rowCode (take (done_count r' - Suc (done_count r)) items)"
      by simp_all
    from a obtain k where k: "done_count r' - done_count r = Suc k" "done_count r' - Suc (done_count r) = k"
      by (metis Suc_diff_le diff_Suc_Suc)
    from a b c fx k show ?case by simp
  qed
  show ?case
  proof (cases "\<not> nonInteractive opts \<and> items \<noteq> []")
    case False
    with Cons.prems p have "ts_processRows U W rl opts items (ts_count res r) lg1 = (Inr r', lg')"
      by (auto simp: Let_def)
    from rec [OF f1 this] show ?thesis .
  next
    case True
    with Cons.prems p have rl: "rl" by (auto simp: Let_def split: if_splits)
    show ?thesis
    proof (cases "toLowerCase cont = ''y''")
      case False
      with Cons.prems p True rl q have e: "r' = ts_count res r" "lg' = lg2" by (simp_all add: Let_def)
      from e s f2 show ?thesis by simp
    next
      case y: True
      with Cons.prems p True rl q have "ts_processRows U W rl opts items (ts_count res r) lg2 = (Inr r', lg')"
        by (simp add: Let_def)
      from rec [OF f2 this] show ?thesis .
    qed
  qed
qed


text \<open>
  Claim C7, as the code has it. In the enhanced script every record adds one to exactly
  one of the three counters, and at the end of every run their sum equals \<open>total\<close>, the
  number of input rows. The TypeScript module counts each processed record in exactly
  one counter as well, and \<open>total\<close> is the number of input rows. When its run returns,
  the records fetched from the directory are the first rows of the input, as many as the
  three counters sum to: at least one for a non-empty input and at most \<open>total\<close>. An
  unattended run always returns and has counted every row.
\<close>

theorem processCustomerList_tally:
  "(updated (fst (fst (processCustomerList U cfg W customerCodes opts lg)))
      + skipped (fst (fst (processCustomerList U cfg W customerCodes opts lg)))
      + failed (fst (fst (processCustomerList U cfg W customerCodes opts lg)))
      = tally.total (fst (fst (processCustomerList U cfg W customerCodes opts lg))) \<and>
    tally.total (fst (fst (processCustomerList U cfg W customerCodes opts lg))) = length customerCodes) \<and>
   ((updated (fst (recordOutcome cd res (r, d))), skipped (fst (recordOutcome cd res (r, d))),
     failed (fst (recordOutcome cd res (r, d))))
      \<in> {(updated r + 1, skipped r, failed r), (updated r, skipped r + 1, failed r),
          (updated r, skipped r, failed r + 1)}) \<and>
   ((updated (ts_count res r), skipped (ts_count res r), failed (ts_count res r))
      \<in> {(updated r + 1, skipped r, failed r), (updated r, skipped r + 1, failed r),
          (updated r, skipped r, failed r + 1)}) \<and>
   (\<forall>r' lg'. ts_processCustomerList U W rl customerCodes opts lg = (Inr r', lg') \<longrightarrow>
      tally.total r' = length customerCodes \<and>
      updated r' + skipped r' + failed r' \<le> tally.total r' \<and>
      (customerCodes \<noteq> [] \<longrightarrow> 1 \<le> updated r' + skipped r' + failed r') \<and>
      fetchedCodes lg' = fetchedCodes lg
        @ map rowCode (take (updated r' + skipped r' + failed r') customerCodes)) \<and>
   (nonInteractive opts \<longrightarrow>
      (\<exists>r'. fst (ts_processCustomerList U W rl customerCodes opts lg) = Inr r' \<and>
            updated r' + skipped r' + failed r' = tally.total r' \<and>
            tally.total r' = length customerCodes))"
proof (intro conjI allI impI)
  let ?r0 = "\<lparr> total = length customerCodes, updated = 0, skipped = 0, failed = 0 \<rparr>"
  have z: "done_count ?r0 = 0" by (simp add: done_count_def)
  note pr = processRows_counts [of U cfg W opts customerCodes ?r0 "[]" lg]
  show "updated (fst (fst (processCustomerList U cfg W customerCodes opts lg)))
      + skipped (fst (fst (processCustomerList U cfg W customerCodes opts lg)))
      + failed (fst (fst (processCustomerList U cfg W customerCodes opts lg)))
      = tally.total (fst (fst (processCustomerList U cfg W customerCodes opts lg)))"
    using pr z by (simp add: processCustomerList_def done_count_def)
  show "tally.total (fst (fst (processCustomerList U cfg W customerCodes opts lg))) = length customerCodes"
    using pr by (simp add: processCustomerList_def)
  show "(updated (fst (recordOutcome cd res (r, d))), skipped (fst (recordOutcome cd res (r, d))),
     failed (fst (recordOutcome cd res (r, d))))
      \<in> {(updated r + 1, skipped r, failed r), (updated r, skipped r + 1, failed r),
          (updated r, skipped r, failed r + 1)}"
    by (simp add: recordOutcome_def)
  show "(updated (ts_count res r), skipped (ts_count res r), failed (ts_count res r))
      \<in> {(updated r + 1, skipped r, failed r), (updated r, skipped r + 1, failed r),
          (updated r, skipped r, failed r + 1)}"
    by (simp add: ts_count_def)
next
  fix r' lg'
  let ?r0 = "\<lparr> total = length customerCodes, updated = 0, skipped = 0, failed = 0 \<rparr>"
  have z: "done_count ?r0 = 0" by (simp add: done_count_def)
  assume "ts_processCustomerList U W rl customerCodes opts lg = (Inr r', lg')"
  then have run: "ts_processRows U W rl opts customerCodes ?r0 lg = (Inr r', lg')"
    by (simp add: ts_processCustomerList_def)
  from ts_processRows_counts [OF run] z
  have a: "done_count r' \<le> length customerCodes" "tally.total r' = length customerCodes" by simp_all
  from ts_processRows_processed [OF run] z
  have b: "customerCodes \<noteq> [] \<longrightarrow> 0 < done_count r'"
    and c: "fetchedCodes lg' = fetchedCodes lg @ map rowCode (take (done_count r') customerCodes)"
    by simp_all
  from a show "tally.total r' = length customerCodes" by simp
  from a show "updated r' + skipped r' + failed r' \<le> tally.total r'" by (simp add: done_count_def)
  from c show "fetchedCodes lg' = fetchedCodes lg
        @ map rowCode (take (updated r' + skipped r' + failed r') customerCodes)"
    by (simp add: done_count_def)
  assume "customerCodes \<noteq> []"
  with b have "0 < done_count r'" by simp
  then show "1 \<le> updated r' + skipped r' + failed r'" unfolding done_count_def by arith
next
  let ?r0 = "\<lparr> total = length customerCodes, updated = 0, skipped = 0, failed = 0 \<rparr>"
  have z: "done_count ?r0 = 0" by (simp add: done_count_def)
  assume "nonInteractive opts"
  from ts_processRows_unattended [OF this, of U W rl customerCodes ?r0 lg] z
  show "\<exists>r'. fst (ts_processCustomerList U W rl customerCodes opts lg) = Inr r' \<and>
            updated r' + skipped r' + failed r' = tally.total r' \<and>
            tally.total r' = length customerCodes"
    by (auto simp: ts_processCustomerList_def done_count_def)
qed

text \<open>
  The claim as stated fails for the TypeScript module when the continue prompt ends the
  loop: with two rows and the answer \<open>n\<close>, one record is counted and \<open>total\<close> is 2.
\<close>

theorem ts_processCustomerList_break_counterexample:
  "ts_processCustomerList urlHostname scenarioB True [BareCode ''ABC123'', BareCode ''XYZ999'']
     (unattended \<lparr> nonInteractive := False \<rparr>) []
   = (Inr \<lparr> total = 2, updated = 0, skipped = 1, failed = 0 \<rparr>,
      [SoapGetCustomer ''ABC123'', Question, Question])"
  by code_simp

theorem processCustomerList_tally_witness:
  "ts_processCustomerList urlHostname scenarioB True [BareCode ''ABC123'', BareCode ''XYZ999''] unattended []
     = (Inr \<lparr> total = 2, updated = 0, skipped = 2, failed = 0 \<rparr>,
        [SoapGetCustomer ''ABC123'', SoapGetCustomer ''XYZ999'']) \<and>
   nonInteractive unattended \<and>
   (\<exists>r'. fst (ts_processCustomerList urlHostname scenarioB True [BareCode ''ABC123'', BareCode ''XYZ999''] unattended []) = Inr r' \<and>
         updated r' + skipped r' + failed r' = tally.total r' \<and> tally.total r' = 2) \<and>
   ts_processCustomerList urlHostname scenarioB True [BareCode ''ABC123'', BareCode ''XYZ999'']
       (unattended \<lparr> nonInteractive := False \<rparr>) []
     = (Inr \<lparr> total = 2, updated = 0, skipped = 1, failed = 0 \<rparr>,
        [SoapGetCustomer ''ABC123'', Question, Question]) \<and>
   fetchedCodes [SoapGetCustomer ''ABC123'', Question, Question]
     = fetchedCodes [] @ map rowCode (take (0 + 1 + 0) [BareCode ''ABC123'', BareCode ''XYZ999''])"
proof -
  have e: "ts_processCustomerList urlHostname scenarioB True [BareCode ''ABC123'', BareCode ''XYZ999''] unattended []
     = (Inr \<lparr> total = 2, updated = 0, skipped = 2, failed = 0 \<rparr>,
        [SoapGetCustomer ''ABC123'', SoapGetCustomer ''XYZ999''])"
    by code_simp
  have i: "ts_processCustomerList urlHostname scenarioB True [BareCode ''ABC123'', BareCode ''XYZ999'']
       (unattended \<lparr> nonInteractive := False \<rparr>) []
     = (Inr \<lparr> total = 2, updated = 0, skipped = 1, failed = 0 \<rparr>,
        [SoapGetCustomer ''ABC123'', Question, Question])"
    by code_simp
  have n: "nonInteractive unattended" by (simp add: unattended_def)
  note t = processCustomerList_tally [of urlHostname defaultConfig scenarioB
      "[BareCode ''ABC123'', BareCode ''XYZ999'']" unattended "[]" "''ABC123''" skippedOutcome
      "\<lparr> total = 2, updated = 0, skipped = 0, failed = 0 \<rparr>" "[]" True]
  note u = t [THEN conjunct2, THEN conjunct2, THEN conjunct2, THEN conjunct2, THEN mp, OF n]
  from u have a: "\<exists>r'. fst (ts_processCustomerList urlHostname scenarioB True [BareCode ''ABC123'', BareCode ''XYZ999''] unattended []) = Inr r' \<and>
         updated r' + skipped r' + failed r' = tally.total r' \<and> tally.total r' = 2"
    by (simp add: numeral_2_eq_2)
  note t2 = processCustomerList_tally [of urlHostname defaultConfig scenarioB
      "[BareCode ''ABC123'', BareCode ''XYZ999'']" "unattended \<lparr> nonInteractive := False \<rparr>" "[]"
      "''ABC123''" skippedOutcome
      "\<lparr> total = 2, updated = 0, skipped = 0, failed = 0 \<rparr>" "[]" True]
  note v = t2 [THEN conjunct2, THEN conjunct2, THEN conjunct2, THEN conjunct1, THEN spec, THEN spec, THEN mp, OF i]
  from v have b: "fetchedCodes [SoapGetCustomer ''ABC123'', Question, Question]
     = fetchedCodes [] @ map rowCode (take (0 + 1 + 0) [BareCode ''ABC123'', BareCode ''XYZ999''])"
    by simp
  from e n a i b show ?thesis by (intro conjI)
qed

lemma processCustomer_existing_unattended:
  assumes "nonInteractive opts" and "\<not> force opts"
    and "getCustomerAnswer W (length lg) cd = Inr c" and "nonBlank (currentWebsite c)"
  shows "processCustomer U cfg W cd opts lg = (skippedOutcome, lg @ [SoapGetCustomer cd])"
  using assms by (simp add: processCustomer_def getCustomer_def)

lemma recordOutcome_status:
  "set (snd (recordOutcome cd res (r, d))) \<subseteq> set d \<union> {x. d_status x = ''updated'' \<or> d_status x = ''failed''}"
  by (auto simp: recordOutcome_def)

lemma processRows_status:
  "set (snd (fst (processRows U cfg W opts items (r, d) lg)))
     \<subseteq> set d \<union> {x. d_status x = ''updated'' \<or> d_status x = ''failed''}"
proof (induction items arbitrary: r d lg)
  case Nil
  show ?case by simp
next
  case (Cons item items)
  obtain res lg1 where p: "processCustomer U cfg W (rowCode item) (opts \<lparr> website := rowWebsite item \<rparr>) lg = (res, lg1)"
    by (cases "processCustomer U cfg W (rowCode item) (opts \<lparr> website := rowWebsite item \<rparr>) lg")
  obtain r1 d1 where ro: "recordOutcome (rowCode item) res (r, d) = (r1, d1)"
    by (cases "recordOutcome (rowCode item) res (r, d)")
  from recordOutcome_status [of "rowCode item" res r d] ro
  have s: "set d1 \<subseteq> set d \<union> {x. d_status x = ''updated'' \<or> d_status x = ''failed''}" by simp
  from Cons.IH [of r1 d1 lg1] s p ro show ?case by auto
qed

text \<open>
  Claim C8, as the code has it. In the enhanced script, a row whose fetched record has a
  website, with overwriting not forced and the run unattended, is counted as skipped
  after the single fetch; no detail entry is recorded for it, and the results file of
  that run holds the header line only. In every run, each entry of the detail list, and
  so each row of the results file, has the status \<open>updated\<close> or \<open>failed\<close>: a skipped record
  is counted and never written.
\<close>

theorem skipped_record_has_no_csv_row:
  assumes unatt: "nonInteractive opts" and noforce: "\<not> force opts"
    and fetch: "getCustomerAnswer W (length lg) (rowCode item) = Inr c"
    and existing: "nonBlank (currentWebsite c)"
  shows "processCustomerList U cfg W [item] opts lg
           = ((\<lparr> total = 1, updated = 0, skipped = 1, failed = 0 \<rparr>, []),
              lg @ [SoapGetCustomer (rowCode item)]) \<and>
         writeResultsCsv (snd (fst (processCustomerList U cfg W [item] opts lg)))
           = ''code,status,url,error'' \<and>
         (\<forall>d \<in> set (snd (fst (processCustomerList U cfg W2 customerCodes opts2 lg2))).
            d_status d = ''updated'' \<or> d_status d = ''failed'')"
proof (intro conjI)
  have o: "nonInteractive (opts \<lparr> website := rowWebsite item \<rparr>)"
          "\<not> force (opts \<lparr> website := rowWebsite item \<rparr>)"
    using unatt noforce by simp_all
  have p: "processCustomer U cfg W (rowCode item) (opts \<lparr> website := rowWebsite item \<rparr>) lg
             = (skippedOutcome, lg @ [SoapGetCustomer (rowCode item)])"
    by (rule processCustomer_existing_unattended [OF o fetch existing])
  show l: "processCustomerList U cfg W [item] opts lg
           = ((\<lparr> total = 1, updated = 0, skipped = 1, failed = 0 \<rparr>, []),
              lg @ [SoapGetCustomer (rowCode item)])"
    by (simp add: processCustomerList_def p recordOutcome_def skippedOutcome_def)
  show "writeResultsCsv (snd (fst (processCustomerList U cfg W [item] opts lg)))
           = ''code,status,url,error''"
    unfolding l by (simp add: writeResultsCsv_def)
  show "\<forall>d \<in> set (snd (fst (processCustomerList U cfg W2 customerCodes opts2 lg2))).
            d_status d = ''updated'' \<or> d_status d = ''failed''"
    using processRows_status [of U cfg W2 opts2 customerCodes
        "\<lparr> total = length customerCodes, updated = 0, skipped = 0, failed = 0 \<rparr>" "[]" lg2]
    by (auto simp: processCustomerList_def)
qed

text \<open>
  The claim as stated fails in scenario B: the record is skipped, and the results file
  is the header line alone, with no row that names \<open>ABC123\<close>.
\<close>

theorem scenarioB_csv_counterexample:
  "fst (processCustomer urlHostname defaultConfig scenarioB ''ABC123'' unattended [])
     = skippedOutcome \<and>
   writeResultsCsv (snd (fst (processCustomerList urlHostname defaultConfig scenarioB
                                 [BareCode ''ABC123''] unattended [])))
     = ''code,status,url,error'' \<and>
   \<not> includesStr (writeResultsCsv (snd (fst (processCustomerList urlHostname defaultConfig scenarioB
                                 [BareCode ''ABC123''] unattended [])))) ''ABC123''"
  by code_simp

theorem skipped_record_has_no_csv_row_witness:
  "processCustomerList urlHostname defaultConfig scenarioB [BareCode ''ABC123''] unattended []
     = ((\<lparr> total = 1, updated = 0, skipped = 1, failed = 0 \<rparr>, []), [SoapGetCustomer ''ABC123'']) \<and>
   snd (fst (processCustomerList urlHostname defaultConfig liveWorld [BareCode ''WE01''] unattended []))
     = [\<lparr> d_code = ''WE01'', d_status = ''updated'', d_url = Some ''www.webowers.com'', d_error = None \<rparr>] \<and>
   list_all (\<lambda>d. d_status d = ''updated'' \<or> d_status d = ''failed'')
     (snd (fst (processCustomerList urlHostname defaultConfig liveWorld [BareCode ''WE01''] unattended [])))"
proof -
  have n: "nonInteractive unattended" "\<not> force unattended" by (simp_all add: unattended_def)
  have f: "getCustomerAnswer scenarioB (length ([] :: log)) (rowCode (BareCode ''ABC123'')) = Inr abc123"
    by (simp add: scenarioB_def quietWorld_def)
  have e: "nonBlank (currentWebsite abc123)" by code_simp
  note t = skipped_record_has_no_csv_row [OF n f e, of urlHostname defaultConfig liveWorld
      "[BareCode ''WE01'']" unattended "[]"]
  have a: "processCustomerList urlHostname defaultConfig scenarioB [BareCode ''ABC123''] unattended []
     = ((\<lparr> total = 1, updated = 0, skipped = 1, failed = 0 \<rparr>, []), [SoapGetCustomer ''ABC123''])"
    using t [THEN conjunct1] by (simp add: rowCode_def)
  have b: "snd (fst (processCustomerList urlHostname defaultConfig liveWorld [BareCode ''WE01''] unattended []))
     = [\<lparr> d_code = ''WE01'', d_status = ''updated'', d_url = Some ''www.webowers.com'', d_error = None \<rparr>]"
    by code_simp
  have c: "list_all (\<lambda>d. d_status d = ''updated'' \<or> d_status d = ''failed'')
     (snd (fst (processCustomerList urlHostname defaultConfig liveWorld [BareCode ''WE01''] unattended [])))"
    using t [THEN conjunct2, THEN conjunct2] by (simp only: list_all_iff)
  from a b c show ?thesis by (intro conjI)
qed

section \<open>Properties of the decision policy\<close>

lemma savesSent_append: "savesSent (xs @ ys) = savesSent xs @ savesSent ys"
  by (simp add: savesSent_def)

lemma tryPatterns_saves: "savesSent (snd (tryPatterns W ps lg)) = savesSent lg"
proof (induction ps arbitrary: lg)
  case Nil
  show ?case by simp
next
  case (Cons p ps)
  show ?case
    by (simp add: checkDomainExists_def checkWebsiteResponds_def Let_def Cons.IH savesSent_append)
       (simp add: savesSent_def)
qed

lemma guessDomain_saves: "savesSent (snd (guessDomain cfg W n cty lg)) = savesSent lg"
  by (simp add: guessDomain_def Let_def tryPatterns_saves savesSent_append)
     (simp add: savesSent_def)

lemma searchGoogleCSE_saves: "savesSent (snd (searchGoogleCSE U cfg W q lg)) = savesSent lg"
  by (simp add: searchGoogleCSE_def Let_def savesSent_append split: cse_response.splits)
     (simp add: savesSent_def)

lemma searchWithOpenAI_saves:
  "savesSent (snd (searchWithOpenAI U cfg W n cty st ph lg)) = savesSent lg"
  by (simp add: searchWithOpenAI_def Let_def savesSent_append split: openai_response.splits)
     (simp add: savesSent_def)

lemma runTier_saves: "savesSent (snd (runTier U cfg W c t lg)) = savesSent lg"
  by (cases t) (simp_all add: runTier_def guessDomain_saves searchGoogleCSE_saves searchWithOpenAI_saves)

lemma firstSuccess_saves: "savesSent (snd (firstSuccess U cfg W c ts lg)) = savesSent lg"
proof (induction ts arbitrary: lg)
  case Nil
  show ?case by simp
next
  case (Cons t ts)
  obtain r lg1 where run: "runTier U cfg W c t lg = (r, lg1)" by (cases "runTier U cfg W c t lg")
  with runTier_saves [of U cfg W c t lg] have s: "savesSent lg1 = savesSent lg" by simp
  show ?case using run s Cons.IH by (cases r) simp_all
qed

lemma findWebsite_saves: "savesSent (snd (findWebsite U cfg W c lg)) = savesSent lg"
  by (simp only: findWebsite_firstSuccess firstSuccess_saves)

lemma saveChosen_blank: "\<not> nonBlank u \<Longrightarrow> saveChosen U cfg W c opts u lg = (skippedOutcome, lg)"
  by (simp add: saveChosen_def)

lemma saveChosen_unattended:
  assumes "nonInteractive opts" and "nonBlank u"
  shows "snd (saveChosen U cfg W c opts u lg)
           = lg @ [SoapSaveCustomer (saveRequest (cust_id c) (cust_code c) (normalizeDomain U (forceWww cfg) u))]
         \<and> \<not> res_skipped (fst (saveChosen U cfg W c opts u lg))"
  using assms
  by (simp add: saveChosen_def saveCustomerWebsite_def sendSave_def errorOutcome_def Let_def
      split: sum.splits)

text \<open>
  Claim C2, as the code has it. In an unattended run with no pinned website, once the
  record is fetched, is not held back by an existing website and the pipeline returns a
  candidate: if the confidence is high or overwriting is forced, and the candidate's
  address is not blank, exactly one save request is sent, for the normalised address, and
  the outcome is not skipped; in every other case the outcome is skipped and nothing is
  sent. So a medium candidate without the force flag is never persisted.
\<close>

theorem processCustomer_confidence_gate:
  assumes ni: "nonInteractive opts"
    and nopin: "orEmpty (website opts) = []"
    and fetch: "getCustomerAnswer W (length lg) customerCode = Inr c"
    and unblocked: "nonBlank (currentWebsite c) \<longrightarrow> force opts"
    and found: "findWebsite U cfg W c (lg @ [SoapGetCustomer customerCode]) = (Some cand, lg2)"
  shows "if (confidence cand = High \<or> force opts) \<and> nonBlank (url cand)
         then snd (processCustomer U cfg W customerCode opts lg)
                = lg2 @ [SoapSaveCustomer (saveRequest (cust_id c) (cust_code c)
                                              (normalizeDomain U (forceWww cfg) (url cand)))]
              \<and> \<not> res_skipped (fst (processCustomer U cfg W customerCode opts lg))
              \<and> savesSent (snd (processCustomer U cfg W customerCode opts lg))
                  = savesSent lg @ [saveRequest (cust_id c) (cust_code c)
                                      (normalizeDomain U (forceWww cfg) (url cand))]
         else processCustomer U cfg W customerCode opts lg = (skippedOutcome, lg2)
              \<and> savesSent (snd (processCustomer U cfg W customerCode opts lg)) = savesSent lg"
proof -
  have step: "processCustomer U cfg W customerCode opts lg
                = resolveAndSave U cfg W c opts (lg @ [SoapGetCustomer customerCode])"
    using ni fetch unblocked by (auto simp: processCustomer_def getCustomer_def)
  have s2: "savesSent lg2 = savesSent lg"
    using findWebsite_saves [of U cfg W c "lg @ [SoapGetCustomer customerCode]"] found
    by (simp add: savesSent_append) (simp add: savesSent_def)
  show ?thesis
  proof (cases "confidence cand = High \<or> force opts")
    case False
    then have "processCustomer U cfg W customerCode opts lg = (skippedOutcome, lg2)"
      using step nopin ni found by (simp add: resolveAndSave_def)
    with False s2 show ?thesis by simp
  next
    case True
    then have r: "processCustomer U cfg W customerCode opts lg = saveChosen U cfg W c opts (url cand) lg2"
      using step nopin ni found by (simp add: resolveAndSave_def)
    show ?thesis
    proof (cases "nonBlank (url cand)")
      case False
      with r s2 True show ?thesis by (simp add: saveChosen_blank)
    next
      case nb: True
      note sc = saveChosen_unattended [OF ni nb, of U cfg W c lg2]
      from sc r s2 True nb show ?thesis
        by (simp add: savesSent_append) (simp add: savesSent_def)
    qed
  qed
qed

text \<open>
  The claim as stated fails for a candidate with an empty address: the completion tier
  turns an empty reply into a candidate, and with the force flag set the record is still
  skipped and nothing is saved.
\<close>

theorem processCustomer_empty_candidate_counterexample:
  "fst (findWebsite urlHostname aiOnlyConfig emptyReplyWorld webowers [SoapGetCustomer ''WE01''])
     = Some \<lparr> url = [], confidence = Medium, source = Openai, allResults = None \<rparr> \<and>
   force (unattended \<lparr> force := True \<rparr>) \<and> nonInteractive (unattended \<lparr> force := True \<rparr>) \<and>
   processCustomer urlHostname aiOnlyConfig emptyReplyWorld ''WE01'' (unattended \<lparr> force := True \<rparr>) []
     = (skippedOutcome,
        [SoapGetCustomer ''WE01'', CallSearchWithOpenAI ''Webowers'' [] [] [],
         OpenAIRequest ''Webowers'' [] [] []])"
  by code_simp


theorem processCustomer_confidence_gate_witness:
  "findWebsite urlHostname defaultConfig liveWorld webowers [SoapGetCustomer ''WE01'']
     = (Some \<lparr> url = ''www.webowers.com'', confidence = High, source = Domain_guess, allResults = None \<rparr>,
        [SoapGetCustomer ''WE01'', CallGuessDomain ''Webowers'' [], DnsResolve ''webowers.com'',
         HttpHead ''https://www.webowers.com'']) \<and>
   savesSent (snd (processCustomer urlHostname defaultConfig liveWorld ''WE01'' unattended []))
     = [\<lparr> req_id = ''17'', req_code = ''WE01'', req_website = ''www.webowers.com'' \<rparr>] \<and>
   findWebsite urlHostname aiOnlyConfig aiReplyWorld webowers [SoapGetCustomer ''WE01'']
     = (Some \<lparr> url = ''www.webowers.com'', confidence = Medium, source = Openai, allResults = None \<rparr>,
        [SoapGetCustomer ''WE01'', CallSearchWithOpenAI ''Webowers'' [] [] [],
         OpenAIRequest ''Webowers'' [] [] []]) \<and>
   processCustomer urlHostname aiOnlyConfig aiReplyWorld ''WE01'' unattended []
     = (skippedOutcome, [SoapGetCustomer ''WE01'', CallSearchWithOpenAI ''Webowers'' [] [] [],
                         OpenAIRequest ''Webowers'' [] [] []])"
proof -
  have ni: "nonInteractive unattended" by (simp add: unattended_def)
  have nf: "\<not> force unattended" by (simp add: unattended_def)
  have nopin: "orEmpty (website unattended) = []" by (simp add: unattended_def orEmpty_def)
  have f1: "getCustomerAnswer liveWorld (length ([] :: log)) ''WE01'' = Inr webowers"
    by (simp add: liveWorld_def quietWorld_def)
  have f2: "getCustomerAnswer aiReplyWorld (length ([] :: log)) ''WE01'' = Inr webowers"
    by (simp add: aiReplyWorld_def quietWorld_def)
  have u: "nonBlank (currentWebsite webowers) \<longrightarrow> force unattended"
    by (simp add: webowers_def nonBlank_def)
  have w1: "findWebsite urlHostname defaultConfig liveWorld webowers ([] @ [SoapGetCustomer ''WE01''])
     = (Some \<lparr> url = ''www.webowers.com'', confidence = High, source = Domain_guess, allResults = None \<rparr>,
        [SoapGetCustomer ''WE01'', CallGuessDomain ''Webowers'' [], DnsResolve ''webowers.com'',
         HttpHead ''https://www.webowers.com''])"
    by code_simp
  have w2: "findWebsite urlHostname aiOnlyConfig aiReplyWorld webowers ([] @ [SoapGetCustomer ''WE01''])
     = (Some \<lparr> url = ''www.webowers.com'', confidence = Medium, source = Openai, allResults = None \<rparr>,
        [SoapGetCustomer ''WE01'', CallSearchWithOpenAI ''Webowers'' [] [] [],
         OpenAIRequest ''Webowers'' [] [] []])"
    by code_simp
  have nb: "nonBlank ''www.webowers.com''" by code_simp
  have rq: "saveRequest (cust_id webowers) (cust_code webowers)
              (normalizeDomain urlHostname (forceWww defaultConfig) ''www.webowers.com'')
            = \<lparr> req_id = ''17'', req_code = ''WE01'', req_website = ''www.webowers.com'' \<rparr>"
    by code_simp
  have e: "savesSent [] = []" by (simp add: savesSent_def)
  from processCustomer_confidence_gate [OF ni nopin f1 u w1] nb rq e
  have a: "savesSent (snd (processCustomer urlHostname defaultConfig liveWorld ''WE01'' unattended []))
     = [\<lparr> req_id = ''17'', req_code = ''WE01'', req_website = ''www.webowers.com'' \<rparr>]"
    by (simp add: savesSent_def)
  from processCustomer_confidence_gate [OF ni nopin f2 u w2] nf
  have b: "processCustomer urlHostname aiOnlyConfig aiReplyWorld ''WE01'' unattended []
     = (skippedOutcome, [SoapGetCustomer ''WE01'', CallSearchWithOpenAI ''Webowers'' [] [] [],
                         OpenAIRequest ''Webowers'' [] [] []])"
    by simp
  from w1 a w2 b show ?thesis by simp
qed

section \<open>Properties of the domain normaliser\<close>






subsection \<open>Characters of the input classes\<close>




lemma codeUnit_eqD: "c = d \<Longrightarrow> codeUnit c = codeUnit d"
  by simp





subsection \<open>Lower-casing and prefixes\<close>















subsection \<open>The two passes on a plain address and on a typed name\<close>


lemma toLowerCase_Nil: "toLowerCase [] = []"
  by (simp add: toLowerCase_def)











subsection \<open>The parser \<open>urlHostname\<close> on the input classes\<close>














subsection \<open>Idempotence\<close>




end
